theory Spec2Isabelle
  imports Main "HOL-Library.Sublist"
begin

section \<open>Text primitives of the runtime\<close>

text \<open>
  JavaScript strings are modelled as Isabelle strings.  The case conversion and the
  trimming defined here act on the ASCII range and carry other characters unchanged;
  they agree with the functions of the runtime on ASCII text, which covers every column
  name and keyword the program compares with a literal.
\<close>

definition LF :: char where "LF = CHR 0x0A"
definition CR :: char where "CR = CHR 0x0D"
definition NUL :: char where "NUL = CHR 0x00"
definition DQ :: char where "DQ = CHR 0x22"

definition CRLF :: string where "CRLF = [CR, LF]"

text \<open>The byte-order mark (U+FEFF) as it is stored in a UTF-8 file.\<close>

definition BOM :: string where "BOM = [CHR 0xEF, CHR 0xBB, CHR 0xBF]"

definition lower_char :: "char \<Rightarrow> char" where
  "lower_char c =
     (case map_of (zip ''ABCDEFGHIJKLMNOPQRSTUVWXYZ'' ''abcdefghijklmnopqrstuvwxyz'') c of
        Some d \<Rightarrow> d
      | None \<Rightarrow> c)"

definition toLowerCase :: "string \<Rightarrow> string" where
  "toLowerCase s = map lower_char s"

definition is_space :: "char \<Rightarrow> bool" where
  "is_space c = (c \<in> set [CHR 0x20, CHR 0x09, CHR 0x0A, CHR 0x0B, CHR 0x0C, CHR 0x0D])"

definition trim :: "string \<Rightarrow> string" where
  "trim s = rev (dropWhile is_space (rev (dropWhile is_space s)))"

text \<open>
  \<^verbatim>\<open>String.prototype.trim\<close> and \<^verbatim>\<open>toLowerCase\<close> act on all of Unicode.  In the
  deduplication and in the filter of the extraction, where the rows that are kept depend
  on how column names, keys and URLs compare, the two functions of the runtime are a
  parameter of the model and nothing is assumed about them.  \<open>ascii_only\<close> holds the two
  functions above and serves to evaluate the model on ASCII samples.
\<close>

record unicode =
  uc_trim :: "string \<Rightarrow> string"
  uc_toLowerCase :: "string \<Rightarrow> string"

definition ascii_only :: unicode where
  "ascii_only = \<lparr>uc_trim = trim, uc_toLowerCase = toLowerCase\<rparr>"

text \<open>\<^verbatim>\<open>hay.includes(needle)\<close>: the needle occurs at some position of the string.\<close>

fun str_includes :: "string \<Rightarrow> string \<Rightarrow> bool" where
  "str_includes [] n = (n = [])"
| "str_includes (c # cs) n = (prefix n (c # cs) \<or> str_includes cs n)"

text \<open>\<^verbatim>\<open>parts.join(sep)\<close>\<close>

fun join :: "string list \<Rightarrow> string \<Rightarrow> string" where
  "join [] sep = []"
| "join [x] sep = x"
| "join (x # y # ys) sep = x @ sep @ join (y # ys) sep"

section \<open>File system\<close>

text \<open>
  The part of the file system the program touches: the contents of regular files by
  path, the set of directories, and the working directory of the process.
\<close>

record fsys =
  files :: "string \<rightharpoonup> string"
  dirs :: "string set"
  cwd :: string

definition existsSync :: "fsys \<Rightarrow> string \<Rightarrow> bool" where
  "existsSync fs p = (files fs p \<noteq> None)"

definition path_resolve :: "fsys \<Rightarrow> string \<Rightarrow> string" where
  "path_resolve fs p = (if p \<noteq> [] \<and> hd p = CHR ''/'' then p else cwd fs @ ''/'' @ p)"

definition path_dirname :: "string \<Rightarrow> string" where
  "path_dirname p =
     (let d = rev (drop 1 (dropWhile (\<lambda>c. c \<noteq> CHR ''/'') (rev p)))
      in if CHR ''/'' \<notin> set p then ''.'' else if d = [] then ''/'' else d)"

definition path_ancestors :: "string \<Rightarrow> string list" where
  "path_ancestors d = [take i d. i \<leftarrow> [1..<length d], d ! i = CHR ''/''] @ [d]"

text \<open>\<^verbatim>\<open>fs.mkdir(dir, { recursive: true })\<close>\<close>

definition mkdir_p :: "string \<Rightarrow> fsys \<Rightarrow> fsys" where
  "mkdir_p d fs = fs\<lparr>dirs := dirs fs \<union> set (path_ancestors d)\<rparr>"

definition writeFile :: "string \<Rightarrow> string \<Rightarrow> fsys \<Rightarrow> fsys" where
  "writeFile p txt fs = fs\<lparr>files := (files fs)(p \<mapsto> txt)\<rparr>"

definition appendFile :: "string \<Rightarrow> string \<Rightarrow> fsys \<Rightarrow> fsys" where
  "appendFile p txt fs =
     fs\<lparr>files := (files fs)(p \<mapsto> (case files fs p of None \<Rightarrow> txt | Some old \<Rightarrow> old @ txt))\<rparr>"

section \<open>The CSV writer (utils/saveProfilesCsv.js)\<close>

text \<open>
  A profile row is an object with string-valued properties; a column pairs the property
  key with the header text.
\<close>

type_synonym row = "string \<rightharpoonup> string"
type_synonym column = "string \<times> string"

definition BASE_COLUMNS :: "column list" where
  "BASE_COLUMNS =
     [(''name'', ''Name''), (''first_name'', ''First Name''), (''last_name'', ''Last Name''),
      (''title'', ''Title''), (''company'', ''Company''), (''person_location'', ''Location''),
      (''person_title'', ''LinkedIn URL'')]"

definition EXT_DOMAIN :: "column list" where
  "EXT_DOMAIN = BASE_COLUMNS @ [(''domain'', ''Website'')]"

definition EXT_DOMAIN_EMAIL :: "column list" where
  "EXT_DOMAIN_EMAIL = EXT_DOMAIN @ [(''Email'', ''Email'')]"

definition EXT_EMAIL :: "column list" where
  "EXT_EMAIL = BASE_COLUMNS @ [(''Email'', ''Email'')]"

text \<open>\<^verbatim>\<open>.replace(/\r?\n/g, ' ')\<close>\<close>

fun newlines_to_space :: "string \<Rightarrow> string" where
  "newlines_to_space [] = []"
| "newlines_to_space [c] = (if c = LF then '' '' else [c])"
| "newlines_to_space (c # d # cs) =
     (if c = CR \<and> d = LF then CHR '' '' # newlines_to_space cs
      else if c = LF then CHR '' '' # newlines_to_space (d # cs)
      else c # newlines_to_space (d # cs))"

text \<open>\<^verbatim>\<open>.replace(/"/g, '""')\<close>\<close>

definition double_quotes :: "string \<Rightarrow> string" where
  "double_quotes s = concat (map (\<lambda>c. if c = DQ then [DQ, DQ] else [c]) s)"

text \<open>\<open>None\<close> is a \<^verbatim>\<open>null\<close> or \<^verbatim>\<open>undefined\<close> value.\<close>

definition esc :: "string option \<Rightarrow> string" where
  "esc value =
     (case value of
        None \<Rightarrow> [DQ, DQ]
      | Some v \<Rightarrow> [DQ] @ double_quotes (trim (newlines_to_space (filter (\<lambda>c. c \<noteq> NUL) v))) @ [DQ])"

text \<open>
  The first line the line reader emits: nothing for an empty file, otherwise the text
  before the first line break.
\<close>

definition first_line :: "string \<Rightarrow> string option" where
  "first_line content =
     (if content = [] then None else Some (takeWhile (\<lambda>c. c \<noteq> LF \<and> c \<noteq> CR) content))"

definition readHeaderLine :: "fsys \<Rightarrow> string \<Rightarrow> string option" where
  "readHeaderLine fs filePath =
     (case files fs filePath of None \<Rightarrow> None | Some content \<Rightarrow> first_line content)"

definition chooseColumnsForExistingHeader :: "string option \<Rightarrow> column list" where
  "chooseColumnsForExistingHeader headerLine =
     (let lc = toLowerCase (case headerLine of None \<Rightarrow> [] | Some h \<Rightarrow> h);
          hasDomain = (str_includes lc ''domain'' \<or> str_includes lc ''website'');
          hasDomain1 = str_includes lc ''domain1'';
          hasDomain2 = str_includes lc ''domain2'';
          hasEmail = str_includes lc ''email''
      in if hasDomain \<and> hasEmail then EXT_DOMAIN_EMAIL
         else if hasDomain then EXT_DOMAIN
         else if hasDomain1 \<and> hasDomain2 \<and> hasEmail
           then BASE_COLUMNS @ [(''domain1'', ''domain1''), (''domain2'', ''domain2''), (''Email'', ''Email'')]
         else if hasDomain1 \<and> hasDomain2
           then BASE_COLUMNS @ [(''domain1'', ''domain1''), (''domain2'', ''domain2'')]
         else if hasDomain1 \<and> hasEmail
           then BASE_COLUMNS @ [(''domain1'', ''domain1''), (''Email'', ''Email'')]
         else if hasDomain1 then BASE_COLUMNS @ [(''domain1'', ''domain1'')]
         else if hasEmail then EXT_EMAIL
         else BASE_COLUMNS)"

text \<open>The rows are updated in place; the model returns the updated rows.\<close>

definition ensureKeysForRow :: "column list \<Rightarrow> row \<Rightarrow> row" where
  "ensureKeysForRow columns r =
     fold (\<lambda>c r'. if r' (fst c) = None then r'(fst c \<mapsto> []) else r') columns r"

definition ensureKeysForColumns :: "row list \<Rightarrow> column list \<Rightarrow> row list" where
  "ensureKeysForColumns rows columns = map (ensureKeysForRow columns) rows"

record save_opts =
  o_filePath :: "string option"
  o_append :: "bool option"
  o_includeBOM :: "bool option"

definition header_text :: "column list \<Rightarrow> string" where
  "header_text columns =
     join (map (\<lambda>c. esc (Some (if snd c \<noteq> [] then snd c else fst c))) columns) '','' @ CRLF"

definition row_text :: "column list \<Rightarrow> row \<Rightarrow> string" where
  "row_text columns r =
     join (map (\<lambda>c. esc (Some (case r (fst c) of None \<Rightarrow> [] | Some v \<Rightarrow> v))) columns) '',''"

definition body_text :: "column list \<Rightarrow> row list \<Rightarrow> string" where
  "body_text columns rows = join (map (row_text columns) rows) CRLF @ CRLF"

text \<open>
  The result is the file system after the call, the rows as the call leaves them, and the
  returned path.  A missing rows argument is \<open>None\<close>.
\<close>

definition saveProfilesCsv ::
  "row list option \<Rightarrow> save_opts \<Rightarrow> fsys \<Rightarrow> fsys \<times> row list option \<times> string" where
  "saveProfilesCsv rows opts fs =
     (let filePath = (case o_filePath opts of None \<Rightarrow> path_resolve fs ''output.csv'' | Some p \<Rightarrow> p);
          append = o_append opts;
          includeBOM = (case o_includeBOM opts of None \<Rightarrow> True | Some b \<Rightarrow> b)
      in case rows of
           None \<Rightarrow> (fs, rows, path_resolve fs filePath)
         | Some [] \<Rightarrow> (fs, rows, path_resolve fs filePath)
         | Some (r # rs) \<Rightarrow>
            (let dir = path_dirname filePath;
                 fs1 = mkdir_p dir fs;
                 fileExists = existsSync fs1 filePath;
                 shouldAppend = (append = Some True \<or> (append = None \<and> fileExists));
                 columns = (if fileExists
                            then chooseColumnsForExistingHeader (readHeaderLine fs1 filePath)
                            else EXT_DOMAIN_EMAIL);
                 rows1 = ensureKeysForColumns (r # rs) columns;
                 header = header_text columns;
                 body = body_text columns rows1;
                 bom = (if includeBOM then BOM else []);
                 fs2 = (if shouldAppend
                        then (if \<not> fileExists then appendFile filePath (bom @ header @ body) fs1
                              else appendFile filePath body fs1)
                        else writeFile filePath (bom @ header @ body) fs1)
             in (fs2, Some rows1, path_resolve fs filePath)))"

section \<open>CSV deduplication (utils/deduplicateCsv.js)\<close>

text \<open>
  The parser and the serialiser come from the third-party packages csv-parse and
  csv-stringify, which the function loads when it runs; they are parameters of the model.
  A parsed record is an object whose properties are the columns: it is an association
  list in the order \<^verbatim>\<open>Object.keys\<close> enumerates.  The parser gives \<open>None\<close> when it
  throws.  The serialiser is called with \<^verbatim>\<open>header: true\<close> and the column list.
\<close>

type_synonym csvrec = "(string \<times> string) list"

record csvlib =
  csv_parse :: "string \<Rightarrow> csvrec list option"
  csv_stringify :: "string list \<Rightarrow> csvrec list \<Rightarrow> string"

definition DEFAULT_KEY_ALIASES :: "string list" where
  "DEFAULT_KEY_ALIASES = [''LinkedIn URL'', ''LinkedIn'', ''person_title'']"

text \<open>
  The loop over the aliases.  \<open>header\<close> are the property names of the first record.
  The first of them equal to the alias when both are lowercased is taken if it is truthy,
  that is, not the empty string.
\<close>

fun find_key_col :: "unicode \<Rightarrow> string list \<Rightarrow> string list \<Rightarrow> string option" where
  "find_key_col tx header [] = None"
| "find_key_col tx header (alias # rest) =
     (case find (\<lambda>h. uc_toLowerCase tx h = uc_toLowerCase tx alias) header of
        Some found \<Rightarrow> if found \<noteq> [] then Some found else find_key_col tx header rest
      | None \<Rightarrow> find_key_col tx header rest)"

text \<open>\<^verbatim>\<open>(row[keyCol] || '').toString().trim().toLowerCase()\<close>\<close>

definition row_key :: "unicode \<Rightarrow> string \<Rightarrow> csvrec \<Rightarrow> string" where
  "row_key tx keyCol r =
     uc_toLowerCase tx (uc_trim tx (case map_of r keyCol of None \<Rightarrow> [] | Some v \<Rightarrow> v))"

fun dedup_loop :: "unicode \<Rightarrow> string \<Rightarrow> string list \<Rightarrow> csvrec list \<Rightarrow> csvrec list" where
  "dedup_loop tx keyCol seen [] = []"
| "dedup_loop tx keyCol seen (r # rows) =
     (let key = row_key tx keyCol r
      in if key = [] then r # dedup_loop tx keyCol seen rows
         else if key \<in> set seen then dedup_loop tx keyCol seen rows
         else r # dedup_loop tx keyCol (key # seen) rows)"

text \<open>
  \<open>lib = None\<close>: the packages are not installed.  A missing file makes the read throw;
  every exception is swallowed by the enclosing handler.
\<close>

definition deduplicateCsv :: "unicode \<Rightarrow> csvlib option \<Rightarrow> string \<Rightarrow> string list \<Rightarrow> fsys \<Rightarrow> fsys" where
  "deduplicateCsv tx lib filePath keyAliases fs =
     (case files fs filePath of
        None \<Rightarrow> fs
      | Some raw \<Rightarrow>
         (case lib of
            None \<Rightarrow> fs
          | Some l \<Rightarrow>
             (case csv_parse l raw of
                None \<Rightarrow> fs
              | Some [] \<Rightarrow> fs
              | Some (r # rows) \<Rightarrow>
                 (let header = map fst r
                  in case find_key_col tx header keyAliases of
                       None \<Rightarrow> fs
                     | Some keyCol \<Rightarrow>
                        writeFile filePath
                          (csv_stringify l header (dedup_loop tx keyCol [] (r # rows))) fs))))"

section \<open>Saving the primary extraction (signalHire/index.js)\<close>

text \<open>\<^verbatim>\<open>a || b\<close> on property reads: the first operand if it is a non-empty string.\<close>

definition or_else :: "string option \<Rightarrow> string option \<Rightarrow> string option" where
  "or_else a b = (case a of None \<Rightarrow> b | Some v \<Rightarrow> if v = [] then b else a)"

definition record_url :: "csvrec \<Rightarrow> string option" where
  "record_url rec =
     or_else (or_else (map_of rec ''LinkedIn URL'') (map_of rec ''LinkedIn'')) (map_of rec ''person_title'')"

fun collect_urls :: "unicode \<Rightarrow> csvrec list \<Rightarrow> string list" where
  "collect_urls tx [] = []"
| "collect_urls tx (rec # recs) =
     (case record_url rec of
        None \<Rightarrow> collect_urls tx recs
      | Some u \<Rightarrow> if u = [] then collect_urls tx recs
                  else uc_toLowerCase tx (uc_trim tx u) # collect_urls tx recs)"

text \<open>
  The set of URLs read from the output file.  It stays empty when the file does not
  exist, the parser package is missing (\<open>parse = None\<close>) or parsing throws.
\<close>

definition existingUrls ::
  "unicode \<Rightarrow> (string \<Rightarrow> csvrec list option) option \<Rightarrow> fsys \<Rightarrow> string \<Rightarrow> string list" where
  "existingUrls tx parse fs outputPath =
     (case files fs outputPath of
        None \<Rightarrow> []
      | Some rawCsv \<Rightarrow>
         (case parse of
            None \<Rightarrow> []
          | Some p \<Rightarrow> (case p rawCsv of None \<Rightarrow> [] | Some records \<Rightarrow> collect_urls tx records)))"

text \<open>\<^verbatim>\<open>r.person_title ? String(r.person_title).trim().toLowerCase() : ''\<close>\<close>

definition row_url :: "unicode \<Rightarrow> row \<Rightarrow> string" where
  "row_url tx r =
     (case r ''person_title'' of
        None \<Rightarrow> []
      | Some v \<Rightarrow> if v = [] then [] else uc_toLowerCase tx (uc_trim tx v))"

fun unique_loop :: "unicode \<Rightarrow> string list \<Rightarrow> string list \<Rightarrow> row list \<Rightarrow> row list" where
  "unique_loop tx existing seenUrls [] = []"
| "unique_loop tx existing seenUrls (r # rows) =
     (let url = row_url tx r
      in if url = [] then r # unique_loop tx existing seenUrls rows
         else if url \<in> set existing \<or> url \<in> set seenUrls then unique_loop tx existing seenUrls rows
         else r # unique_loop tx existing (url # seenUrls) rows)"

text \<open>The loop that renames the legacy name keys and adds the keys the header needs.\<close>

definition rename_key :: "string \<Rightarrow> string \<Rightarrow> row \<Rightarrow> row" where
  "rename_key old new r = (case r old of None \<Rightarrow> r | Some v \<Rightarrow> (r(new \<mapsto> v))(old := None))"

definition default_key :: "string \<Rightarrow> row \<Rightarrow> row" where
  "default_key k r = (if r k = None then r(k \<mapsto> []) else r)"

definition prepare_row :: "row \<Rightarrow> row" where
  "prepare_row r =
     default_key ''Email'' (default_key ''domain'' (default_key ''last_name'' (default_key ''first_name''
       (rename_key ''last_Name'' ''last_name'' (rename_key ''first_Name'' ''first_name'' r)))))"

definition uniqueRows ::
  "unicode \<Rightarrow> (string \<Rightarrow> csvrec list option) option \<Rightarrow> fsys \<Rightarrow> string \<Rightarrow> row list \<Rightarrow> row list" where
  "uniqueRows tx parse fs outputPath rows =
     map prepare_row (unique_loop tx (existingUrls tx parse fs outputPath) [] rows)"

record sh_opts =
  sh_filePath :: "string option"
  sh_append :: "bool option"

text \<open>
  The part of \<^verbatim>\<open>runSignalHire\<close> after the extraction: \<open>rows\<close> are the extracted
  profiles.  \<open>upgrade\<close> stands for \<^verbatim>\<open>upgradeCsvAddEmailOnly\<close>, whose source is not part
  of the files at hand; it only rewrites the output file.  The result is the file system
  and the rows handed to the CSV writer, as the writer leaves them.
\<close>

definition runSignalHire_save ::
  "unicode \<Rightarrow> (string \<Rightarrow> csvrec list option) option \<Rightarrow> (string \<Rightarrow> fsys \<Rightarrow> fsys) \<Rightarrow> sh_opts
     \<Rightarrow> row list \<Rightarrow> fsys \<Rightarrow> fsys \<times> row list option" where
  "runSignalHire_save tx parse upgrade opts rows fs =
     (let outputPath = (case sh_filePath opts of
                          None \<Rightarrow> path_resolve fs ''output.csv''
                        | Some p \<Rightarrow> if p = [] then path_resolve fs ''output.csv'' else p);
          urows = uniqueRows tx parse fs outputPath rows;
          exists = existsSync fs outputPath;
          effectiveAppend = (case sh_append opts of None \<Rightarrow> exists | Some a \<Rightarrow> a);
          fs1 = (if exists then upgrade outputPath fs else fs);
          res = saveProfilesCsv (Some urows)
                  \<lparr>o_filePath = Some outputPath, o_append = Some effectiveAppend, o_includeBOM = None\<rparr> fs1
      in (fst res, fst (snd res)))"

text \<open>
  The filter in the words of its description: a row with a non-empty URL is dropped when
  the URL is among those read from the file or is the URL of an earlier row of the batch,
  kept or not; every other row is kept.
\<close>

fun spec_unique :: "unicode \<Rightarrow> string list \<Rightarrow> string list \<Rightarrow> row list \<Rightarrow> row list" where
  "spec_unique tx inFile earlier [] = []"
| "spec_unique tx inFile earlier (r # rows) =
     (if row_url tx r = [] then r # spec_unique tx inFile earlier rows
      else if row_url tx r \<in> set inFile \<or> row_url tx r \<in> set earlier
        then spec_unique tx inFile (row_url tx r # earlier) rows
      else r # spec_unique tx inFile (row_url tx r # earlier) rows)"

text \<open>Sample data for the CSV writer: a file written with the two legacy domain columns.\<close>

definition legacy_columns :: "column list" where
  "legacy_columns = BASE_COLUMNS @ [(''domain1'', ''domain1''), (''domain2'', ''domain2'')]"

definition legacy_row :: row where
  "legacy_row = [''name'' \<mapsto> ''Ann Lee'', ''person_title'' \<mapsto> ''https://x/in/ann'',
                 ''domain1'' \<mapsto> ''a.com'', ''domain2'' \<mapsto> ''b.com'']"

definition new_row :: row where
  "new_row = [''name'' \<mapsto> ''Bob Roy'', ''person_title'' \<mapsto> ''https://x/in/bob'',
              ''domain1'' \<mapsto> ''c.com'', ''domain2'' \<mapsto> ''d.com'']"

definition legacy_file :: string where
  "legacy_file = BOM @ header_text legacy_columns @ body_text legacy_columns [legacy_row]"

definition legacy_fs :: fsys where
  "legacy_fs = \<lparr>files = [''/data/list.csv'' \<mapsto> legacy_file], dirs = {''/'', ''/data''}, cwd = ''/''\<rparr>"

definition append_opts :: save_opts where
  "append_opts = \<lparr>o_filePath = Some ''/data/list.csv'', o_append = Some True, o_includeBOM = None\<rparr>"

section \<open>A model of the CSV packages\<close>

text \<open>
  The behaviour of csv-parse (with \<^verbatim>\<open>columns\<close>, \<^verbatim>\<open>skip_empty_lines\<close> and
  \<^verbatim>\<open>relax_column_count\<close>, with or without \<^verbatim>\<open>bom\<close> and \<^verbatim>\<open>trim\<close>) and of
  csv-stringify (with \<^verbatim>\<open>header\<close>, \<^verbatim>\<open>columns\<close> and \<^verbatim>\<open>bom\<close>) on comma-separated
  text, as their documentation describes it.  The serialiser quotes a field only when it
  contains the delimiter, a quote or a line feed, and ends every record with a line
  feed.  The parser rejects a quote in the middle of an unquoted field and an unclosed
  quote, and skips empty lines.  With \<^verbatim>\<open>trim\<close> it drops whitespace around delimiters
  but keeps what stands inside quotes.  It removes a leading byte-order mark only with
  \<^verbatim>\<open>bom\<close>; otherwise the mark is the beginning of the first field.
\<close>

definition needs_quote :: "string \<Rightarrow> bool" where
  "needs_quote v = (CHR '','' \<in> set v \<or> DQ \<in> set v \<or> LF \<in> set v)"

definition stringify_field :: "string \<Rightarrow> string" where
  "stringify_field v = (if needs_quote v then [DQ] @ double_quotes v @ [DQ] else v)"

definition stringify_line :: "string list \<Rightarrow> string" where
  "stringify_line vs = join (map stringify_field vs) '','' @ [LF]"

definition column_values :: "string list \<Rightarrow> csvrec \<Rightarrow> string list" where
  "column_values header r = map (\<lambda>h. case map_of r h of None \<Rightarrow> [] | Some v \<Rightarrow> v) header"

definition stringify_model :: "string list \<Rightarrow> csvrec list \<Rightarrow> string" where
  "stringify_model header rows =
     BOM @ stringify_line header @ concat (map (\<lambda>r. stringify_line (column_values header r)) rows)"

definition rtrim :: "string \<Rightarrow> string" where
  "rtrim s = rev (dropWhile is_space (rev s))"

definition end_field :: "bool \<Rightarrow> bool \<Rightarrow> string \<Rightarrow> string" where
  "end_field trimming wasQuoting buf = (if trimming \<and> \<not> wasQuoting then rtrim buf else buf)"

definition end_record ::
  "bool \<Rightarrow> bool \<Rightarrow> string \<Rightarrow> string list \<Rightarrow> string list list \<Rightarrow> string list list" where
  "end_record trimming wasQuoting buf flds recs =
     (if flds = [] \<and> buf = [] \<and> \<not> wasQuoting then recs
      else recs @ [flds @ [end_field trimming wasQuoting buf]])"

text \<open>
  The scanner: \<open>quoting\<close> holds inside a quoted field, \<open>wasQuoting\<close> after its closing
  quote; \<open>buf\<close> is the current field, \<open>flds\<close> the current record.
\<close>

fun scan :: "bool \<Rightarrow> bool \<Rightarrow> bool \<Rightarrow> string \<Rightarrow> string list \<Rightarrow> string list list \<Rightarrow> string
    \<Rightarrow> string list list option" where
  "scan trimming quoting wasQuoting buf flds recs [] =
     (if quoting then None else Some (end_record trimming wasQuoting buf flds recs))"
| "scan trimming quoting wasQuoting buf flds recs (c # cs) =
     (if quoting then
        (if c = DQ then
           (case cs of
              d # ds \<Rightarrow> if d = DQ then scan trimming True wasQuoting (buf @ [DQ]) flds recs ds
                        else scan trimming False True buf flds recs cs
            | [] \<Rightarrow> scan trimming False True buf flds recs cs)
         else scan trimming True wasQuoting (buf @ [c]) flds recs cs)
      else if c = CHR '','' then
        scan trimming False False [] (flds @ [end_field trimming wasQuoting buf]) recs cs
      else if c = LF then
        scan trimming False False [] [] (end_record trimming wasQuoting buf flds recs) cs
      else if c = CR \<and> cs \<noteq> [] \<and> hd cs = LF then scan trimming False wasQuoting buf flds recs cs
      else if wasQuoting then
        (if trimming \<and> is_space c then scan trimming False True buf flds recs cs else None)
      else if c = DQ then (if buf = [] then scan trimming True False [] flds recs cs else None)
      else if buf = [] \<and> trimming \<and> is_space c then scan trimming False False [] flds recs cs
      else scan trimming False False (buf @ [c]) flds recs cs)"

definition strip_bom :: "string \<Rightarrow> string" where
  "strip_bom s = (if prefix BOM s then drop (length BOM) s else s)"

definition set_column :: "csvrec \<Rightarrow> string \<times> string \<Rightarrow> csvrec" where
  "set_column r kv =
     (if fst kv \<in> set (map fst r) then map (\<lambda>p. if fst p = fst kv then kv else p) r else r @ [kv])"

definition to_object :: "string list \<Rightarrow> string list \<Rightarrow> csvrec" where
  "to_object header values = foldl set_column [] (zip header values)"

definition parse_with :: "bool \<Rightarrow> bool \<Rightarrow> string \<Rightarrow> csvrec list option" where
  "parse_with bom trimming raw =
     (case scan trimming False False [] [] [] (if bom then strip_bom raw else raw) of
        None \<Rightarrow> None
      | Some [] \<Rightarrow> Some []
      | Some (header # recs) \<Rightarrow> Some (map (to_object header) recs))"

text \<open>The parser as the deduplication calls it (\<^verbatim>\<open>bom: true, trim: true\<close>).\<close>

definition parse_model :: "string \<Rightarrow> csvrec list option" where
  "parse_model raw = parse_with True True raw"

text \<open>The parser as \<^verbatim>\<open>runSignalHire\<close> calls it (neither \<^verbatim>\<open>bom\<close> nor \<^verbatim>\<open>trim\<close>).\<close>

definition parse_plain :: "string \<Rightarrow> csvrec list option" where
  "parse_plain raw = parse_with False False raw"

definition csv_model :: csvlib where
  "csv_model = \<lparr>csv_parse = parse_model, csv_stringify = stringify_model\<rparr>"

text \<open>Sample files for the deduplication.\<close>

definition data_fs :: "string \<Rightarrow> fsys" where
  "data_fs content = \<lparr>files = [''/data/list.csv'' \<mapsto> content], dirs = {''/'', ''/data''}, cwd = ''/''\<rparr>"

definition padded_file :: string where
  "padded_file = ''LinkedIn URL,Name'' @ [LF] @ [DQ] @ '' https://x/in/ann '' @ [DQ] @ '',Ann'' @ [LF]"

definition duplicate_file :: string where
  "duplicate_file =
     ''Name,LinkedIn URL'' @ [LF] @ ''Ann,https://x/in/ann'' @ [LF] @ ''Bob,'' @ [LF]
       @ ''Ann L,HTTPS://x/in/Ann '' @ [LF] @ ''Cy,'' @ [LF]"

text \<open>
  Two files whose first record is shorter than the header row: in the first the key
  column is missing from the first record, in the second the last column is.
\<close>

definition short_first_file :: string where
  "short_first_file =
     ''Name,LinkedIn URL'' @ [LF] @ ''Ann'' @ [LF] @ ''Bob,https://x/in/bob'' @ [LF]
       @ ''Bob B,https://x/in/bob'' @ [LF]"

definition short_record_file :: string where
  "short_record_file =
     ''LinkedIn URL,Name,Email'' @ [LF] @ ''https://x/in/ann,Ann'' @ [LF]
       @ ''https://x/in/bob,Bob,bob@x.com'' @ [LF]"

text \<open>
  Sample data for the save path: a profile, and the output file as the CSV writer creates
  it for that profile.
\<close>

definition ann_row :: row where
  "ann_row = [''name'' \<mapsto> ''Ann Lee'', ''person_title'' \<mapsto> ''https://x/in/ann'']"

definition new_opts :: save_opts where
  "new_opts = \<lparr>o_filePath = Some ''/data/list.csv'', o_append = None, o_includeBOM = None\<rparr>"

definition written_fs :: fsys where
  "written_fs = fst (saveProfilesCsv (Some [ann_row]) new_opts
                      \<lparr>files = Map.empty, dirs = {''/''}, cwd = ''/''\<rparr>)"

definition ann_line :: string where
  "ann_line =
     join (map (\<lambda>v. esc (Some v)) [''Ann Lee'', [], [], [], [], [], ''https://x/in/ann'', [], []]) '','' @ CRLF"

text \<open>What a record looks like when it is read back: the header's columns, in order.\<close>

definition project :: "string list \<Rightarrow> csvrec \<Rightarrow> csvrec" where
  "project header r = map (\<lambda>h. (h, case map_of r h of None \<Rightarrow> [] | Some v \<Rightarrow> v)) header"

text \<open>
  The library reads back what it wrote: the text it serialises for these columns and
  records parses to the same records, and serialising those again gives the same text.
\<close>

definition reads_back :: "csvlib \<Rightarrow> string list \<Rightarrow> csvrec list \<Rightarrow> bool" where
  "reads_back l header rows =
     (csv_parse l (csv_stringify l header rows) = Some (map (project header) rows)
      \<and> csv_stringify l header (map (project header) rows) = csv_stringify l header rows)"

section \<open>Job records and the job store (utils/jobsManager.js)\<close>

text \<open>
  JavaScript values, as far as job records use them.  Objects live in a heap and are
  passed by reference, so that two names for one object see each other's writes.  An
  object is a map from property keys to values; a missing property reads as
  \<^verbatim>\<open>undefined\<close>.
\<close>

datatype jsval = JUndefined | JNull | JBool bool | JNum int | JStr string | JRef nat

type_synonym obj = "string \<rightharpoonup> jsval"

definition truthy :: "jsval \<Rightarrow> bool" where
  "truthy v =
     (case v of
        JUndefined \<Rightarrow> False
      | JNull \<Rightarrow> False
      | JBool b \<Rightarrow> b
      | JNum n \<Rightarrow> n \<noteq> 0
      | JStr s \<Rightarrow> s \<noteq> []
      | JRef r \<Rightarrow> True)"

definition get_prop :: "obj \<Rightarrow> string \<Rightarrow> jsval" where
  "get_prop ob k = (case ob k of None \<Rightarrow> JUndefined | Some v \<Rightarrow> v)"

fun show_nat :: "nat \<Rightarrow> string" where
  "show_nat n =
     (if n < 10 then [''0123456789'' ! n] else show_nat (n div 10) @ [''0123456789'' ! (n mod 10)])"

text \<open>The string a value becomes as a property key or inside a template literal.\<close>

definition to_key :: "jsval \<Rightarrow> string" where
  "to_key v =
     (case v of
        JUndefined \<Rightarrow> ''undefined''
      | JNull \<Rightarrow> ''null''
      | JBool b \<Rightarrow> (if b then ''true'' else ''false'')
      | JNum n \<Rightarrow> (if n < 0 then ''-'' @ show_nat (nat (- n)) else show_nat (nat n))
      | JStr s \<Rightarrow> s
      | JRef r \<Rightarrow> ''[object Object]'')"

datatype error = InvalidJob | WriteFailed

text \<open>
  \<open>jobsCache\<close> is the module variable: a reference to the cache object, whose properties
  are the job ids and whose values are references to the job records.  \<open>disk\<close> is the
  \<^verbatim>\<open>all_jobs\<close> directory: for each file name the properties serialised into it.
  \<open>writable\<close> says whether creating the directory and writing a file succeed.
\<close>

record store =
  heap :: "nat \<rightharpoonup> obj"
  next_ref :: nat
  jobsCache :: nat
  disk :: "string \<rightharpoonup> obj"
  writable :: bool

definition obj_at :: "'a store_scheme \<Rightarrow> nat \<Rightarrow> obj" where
  "obj_at s r = (case heap s r of None \<Rightarrow> Map.empty | Some ob \<Rightarrow> ob)"

definition alloc :: "obj \<Rightarrow> 'a store_scheme \<Rightarrow> nat \<times> 'a store_scheme" where
  "alloc ob s = (next_ref s, s\<lparr>heap := (heap s)(next_ref s \<mapsto> ob), next_ref := Suc (next_ref s)\<rparr>)"

text \<open>\<^verbatim>\<open>o[k] = v\<close>, \<^verbatim>\<open>delete o[k]\<close> and \<^verbatim>\<open>Object.assign(o, updates)\<close> on the object at a reference.\<close>

definition set_prop :: "nat \<Rightarrow> string \<Rightarrow> jsval \<Rightarrow> 'a store_scheme \<Rightarrow> 'a store_scheme" where
  "set_prop r k v s = s\<lparr>heap := (heap s)(r \<mapsto> (obj_at s r)(k \<mapsto> v))\<rparr>"

definition delete_prop :: "nat \<Rightarrow> string \<Rightarrow> 'a store_scheme \<Rightarrow> 'a store_scheme" where
  "delete_prop r k s = s\<lparr>heap := (heap s)(r \<mapsto> (obj_at s r)(k := None))\<rparr>"

definition assign :: "nat \<Rightarrow> obj \<Rightarrow> 'a store_scheme \<Rightarrow> 'a store_scheme" where
  "assign r updates s = s\<lparr>heap := (heap s)(r \<mapsto> obj_at s r ++ updates)\<rparr>"

text \<open>\<^verbatim>\<open>JSON.stringify\<close> leaves out the properties whose value is \<^verbatim>\<open>undefined\<close>.\<close>

definition json_of :: "obj \<Rightarrow> obj" where
  "json_of ob = (\<lambda>k. case ob k of Some JUndefined \<Rightarrow> None | x \<Rightarrow> x)"

text \<open>
  The property names every object inherits from \<^verbatim>\<open>Object.prototype\<close>.  Reading one of
  them from an object that has no own property of that name gives the inherited value;
  the model of property reads has own properties only, and job ids are taken not to be
  among these names.
\<close>

definition inherited_keys :: "string list" where
  "inherited_keys =
     [''constructor'', ''__proto__'', ''hasOwnProperty'', ''isPrototypeOf'', ''propertyIsEnumerable'',
      ''toLocaleString'', ''toString'', ''valueOf'', ''__defineGetter__'', ''__defineSetter__'',
      ''__lookupGetter__'', ''__lookupSetter__'']"

definition getJobs :: "'a store_scheme \<Rightarrow> nat" where
  "getJobs s = jobsCache s"

definition getJob :: "'a store_scheme \<Rightarrow> string \<Rightarrow> jsval" where
  "getJob s jobId = (let v = get_prop (obj_at s (jobsCache s)) jobId in if truthy v then v else JNull)"

definition saveJob :: "nat \<Rightarrow> 'a store_scheme \<Rightarrow> (error + unit) \<times> 'a store_scheme" where
  "saveJob job s =
     (let ob = obj_at s job; ident = get_prop ob ''id''
      in if \<not> truthy ident then (Inl InvalidJob, s)
         else if \<not> writable s then (Inl WriteFailed, s)
         else (Inr (),
               set_prop (jobsCache s) (to_key ident) (JRef job)
                 (s\<lparr>disk := (disk s)(to_key ident @ ''.json'' \<mapsto> json_of ob)\<rparr>)))"

definition setJob :: "nat \<Rightarrow> 'a store_scheme \<Rightarrow> (error + unit) \<times> 'a store_scheme" where
  "setJob job s = saveJob job s"

text \<open>
  A cache entry that is not an object but truthy has no \<^verbatim>\<open>id\<close> property, so saving
  it is rejected.
\<close>

definition updateJob :: "string \<Rightarrow> obj \<Rightarrow> 'a store_scheme \<Rightarrow> (error + unit) \<times> 'a store_scheme" where
  "updateJob jobId updates s =
     (if jobId = [] then (Inr (), s)
      else case get_prop (obj_at s (jobsCache s)) jobId of
             JRef job \<Rightarrow> saveJob job (assign job updates s)
           | v \<Rightarrow> if truthy v then (Inl InvalidJob, s)
                  else (let a = alloc Map.empty s in saveJob (fst a) (assign (fst a) updates (snd a))))"

section \<open>The scrape session and the job runner (routes/scrapeRoutes.js)\<close>

record session =
  isScraping :: bool
  isPaused :: bool
  pauseRequested :: bool
  currentJobId :: "string option"

text \<open>
  \<^verbatim>\<open>runScrape\<close> is an asynchronous function: a call runs up to its first wait, and a
  request handler or another call may run before it goes on.  A call is a \<open>runner\<close>: its
  local variables, the wait it is suspended at, and the state of its browser context.
\<close>

datatype pc = AwaitBrowser | AwaitLinkedIn | AwaitSignalHire | AwaitContactOut | AwaitScroll
  | AwaitNextPage | Finished

datatype browser_context = NotLaunched | ContextOpen | ContextClosed

datatype caller = FromCreate | FromRun | FromResume

record runner =
  r_jobId :: "string option"
  r_job :: nat
  r_caller :: caller
  r_pc :: pc
  r_context :: browser_context
  r_currentPage :: jsval
  r_shRows :: nat

text \<open>
  \<open>routes_jobs\<close> is the constant \<^verbatim>\<open>jobs\<close> of the routes module: the reference that
  \<^verbatim>\<open>getJobs()\<close> returned when the module was loaded.  \<open>cookieFile\<close> says whether
  the LinkedIn cookie file exists.
\<close>

record world = store +
  routes_jobs :: nat
  scrapeSession :: session
  cookieFile :: bool
  runners :: "runner list"

text \<open>
  What the waits of a runner come back with.  The calls of \<^verbatim>\<open>context.close()\<close> at the
  pause checks, at the exit for a failed navigation and after the loop are not guarded
  against a thrown error: \<open>CloseThrew a again\<close> is the answer \<open>a\<close> to a step in which the
  first of these calls throws, and \<open>again\<close> says whether the calls of
  \<^verbatim>\<open>context.close()\<close> that follow in the same step throw as well.
\<close>

datatype nav = Moved | NoMore | NavFailed

datatype answer =
    Logins bool bool
  | LinkedIn bool
  | Rows "nat option"
  | Profiles "nat option"
  | Scrolled
  | Nav nav "string option"
  | Threw
  | CloseThrew answer bool

definition key_of :: "string option \<Rightarrow> string" where
  "key_of jobId = (case jobId of None \<Rightarrow> ''null'' | Some k \<Rightarrow> k)"

text \<open>\<^verbatim>\<open>updateJob(jobId, updates).catch(() => {})\<close>\<close>

definition update_swallow :: "string option \<Rightarrow> obj \<Rightarrow> world \<Rightarrow> world" where
  "update_swallow jobId updates w =
     (case jobId of None \<Rightarrow> w | Some k \<Rightarrow> snd (updateJob k updates w))"

definition progress :: "obj \<Rightarrow> obj" where
  "progress job =
     [''pageIndex'' \<mapsto> get_prop job ''pageIndex'', ''currentUrl'' \<mapsto> get_prop job ''currentUrl'',
      ''totalRows'' \<mapsto> get_prop job ''totalRows'', ''totalContacts'' \<mapsto> get_prop job ''totalContacts'']"

definition set_flags :: "bool \<Rightarrow> bool \<Rightarrow> world \<Rightarrow> world" where
  "set_flags scraping paused w =
     w\<lparr>scrapeSession := (scrapeSession w)\<lparr>isScraping := scraping, isPaused := paused\<rparr>\<rparr>"

definition set_runner :: "nat \<Rightarrow> runner \<Rightarrow> world \<Rightarrow> world" where
  "set_runner i rn w = w\<lparr>runners := (runners w)[i := rn]\<rparr>"

text \<open>\<^verbatim>\<open>x += n\<close> and \<^verbatim>\<open>x++\<close> on a counter; a value that is not a number stays as it is.\<close>

definition plus_count :: "jsval \<Rightarrow> nat \<Rightarrow> jsval" where
  "plus_count v n = (case v of JNum a \<Rightarrow> JNum (a + int n) | x \<Rightarrow> x)"

definition stop_requested :: "world \<Rightarrow> runner \<Rightarrow> bool" where
  "stop_requested w rn =
     (pauseRequested (scrapeSession w) \<or> currentJobId (scrapeSession w) \<noteq> r_jobId rn)"

text \<open>The body of every pause check of the loop.\<close>

definition pause_exit :: "nat \<Rightarrow> runner \<Rightarrow> world \<Rightarrow> world" where
  "pause_exit i rn w =
     (let w1 = set_prop (r_job rn) ''state'' (JStr ''paused'')
                 (set_prop (r_job rn) ''pageIndex'' (r_currentPage rn) w);
          ss = scrapeSession w1;
          w2 = w1\<lparr>scrapeSession := ss\<lparr>isScraping := False, isPaused := pauseRequested ss,
                                       pauseRequested := False\<rparr>\<rparr>;
          w3 = update_swallow (r_jobId rn)
                 ((progress (obj_at w2 (r_job rn)))(''state'' \<mapsto> JStr ''paused'')) w2
      in set_runner i (rn\<lparr>r_pc := Finished, r_context := ContextClosed\<rparr>) w3)"

text \<open>The two checks at the top of an iteration, then the call of \<^verbatim>\<open>runSignalHire\<close>.\<close>

definition loop_head :: "nat \<Rightarrow> runner \<Rightarrow> world \<Rightarrow> world" where
  "loop_head i rn w =
     (if stop_requested w rn then pause_exit i rn w
      else set_runner i (rn\<lparr>r_pc := AwaitSignalHire\<rparr>) w)"

text \<open>The check after the extraction, then the scroll and the delay.\<close>

definition after_extraction :: "nat \<Rightarrow> runner \<Rightarrow> world \<Rightarrow> world" where
  "after_extraction i rn w =
     (if stop_requested w rn then pause_exit i rn w
      else set_runner i (rn\<lparr>r_pc := AwaitScroll\<rparr>) w)"

text \<open>The code after the loop.\<close>

definition complete :: "nat \<Rightarrow> runner \<Rightarrow> world \<Rightarrow> world" where
  "complete i rn w =
     (let w1 = set_flags False False (set_prop (r_job rn) ''state'' (JStr ''completed'') w);
          w2 = update_swallow (r_jobId rn)
                 ((progress (obj_at w1 (r_job rn)))(''state'' \<mapsto> JStr ''completed'')) w1
      in set_runner i (rn\<lparr>r_pc := Finished, r_context := ContextClosed\<rparr>) w2)"

text \<open>
  The exits that pause the job: \<open>closing\<close> says whether the path closes the browser
  context, \<open>extra\<close> are the fields it sets besides the state.
\<close>

definition pause_job :: "nat \<Rightarrow> runner \<Rightarrow> bool \<Rightarrow> bool \<Rightarrow> obj \<Rightarrow> world \<Rightarrow> world" where
  "pause_job i rn paused closing extra w =
     (let w1 = assign (r_job rn) ([''state'' \<mapsto> JStr ''paused''] ++ extra) (set_flags False paused w);
          w2 = update_swallow (r_jobId rn)
                 (progress (obj_at w1 (r_job rn)) ++ [''state'' \<mapsto> JStr ''paused''] ++ extra) w1
      in set_runner i
           (rn\<lparr>r_pc := Finished, r_context := (if closing then ContextClosed else r_context rn)\<rparr>) w2)"

text \<open>The handlers attached to the promise of \<^verbatim>\<open>runScrape()\<close> by the three callers.\<close>

definition rejected :: "nat \<Rightarrow> runner \<Rightarrow> world \<Rightarrow> world" where
  "rejected i rn w =
     (let w1 = set_prop (r_job rn) ''state'' (JStr ''paused'') (set_flags False False w);
          w2 = (if r_caller rn = FromRun
                then update_swallow (r_jobId rn) [''state'' \<mapsto> JStr ''paused''] w1 else w1)
      in set_runner i (rn\<lparr>r_pc := Finished\<rparr>) w2)"

text \<open>After \<^verbatim>\<open>runSignalHire\<close>: \<open>res\<close> is the number of rows, \<open>None\<close> when the call threw.\<close>

definition after_signalhire :: "nat option \<Rightarrow> nat \<Rightarrow> runner \<Rightarrow> world \<Rightarrow> world" where
  "after_signalhire res i rn w =
     (let n = (case res of None \<Rightarrow> 0 | Some k \<Rightarrow> k);
          w1 = (case res of
                  None \<Rightarrow> w
                | Some k \<Rightarrow> set_prop (r_job rn) ''totalRows''
                             (plus_count (get_prop (obj_at w (r_job rn)) ''totalRows'') k) w);
          rn1 = rn\<lparr>r_shRows := n\<rparr>
      in if stop_requested w1 rn1 then pause_exit i rn1 w1
         else if n > 0 then set_runner i (rn1\<lparr>r_pc := AwaitContactOut\<rparr>) w1
         else after_extraction i rn1 w1)"

text \<open>After the ContactOut block: \<open>res\<close> is the number of profiles, \<open>None\<close> when it threw before counting.\<close>

definition after_contactout :: "nat option \<Rightarrow> nat \<Rightarrow> runner \<Rightarrow> world \<Rightarrow> world" where
  "after_contactout res i rn w =
     (let w1 = (case res of
                  None \<Rightarrow> w
                | Some k \<Rightarrow> set_prop (r_job rn) ''totalContacts''
                             (plus_count (get_prop (obj_at w (r_job rn)) ''totalContacts'') k) w)
      in after_extraction i rn w1)"

text \<open>After the scroll and the delay, whose errors are caught: the check before the next page.\<close>

definition after_scroll :: "nat \<Rightarrow> runner \<Rightarrow> world \<Rightarrow> world" where
  "after_scroll i rn w =
     (if stop_requested w rn then pause_exit i rn w
      else set_runner i (rn\<lparr>r_pc := AwaitNextPage\<rparr>) w)"

text \<open>After \<^verbatim>\<open>clickNextPage\<close> returned \<open>navStatus\<close>; \<open>url\<close> is \<^verbatim>\<open>page.url()\<close>, \<open>None\<close> when it throws.\<close>

definition after_next_page :: "nav \<Rightarrow> string option \<Rightarrow> nat \<Rightarrow> runner \<Rightarrow> world \<Rightarrow> world" where
  "after_next_page navStatus url i rn w =
     (let rn1 = (if navStatus = Moved then rn\<lparr>r_currentPage := plus_count (r_currentPage rn) 1\<rparr> else rn);
          w1 = set_prop (r_job rn) ''pageIndex'' (r_currentPage rn1) w;
          w2 = (case url of None \<Rightarrow> w1 | Some u \<Rightarrow> set_prop (r_job rn) ''currentUrl'' (JStr u) w1);
          job = obj_at w2 (r_job rn);
          w3 = update_swallow (r_jobId rn) ((progress (obj_at w2 (r_job rn)))(''state'' \<mapsto> get_prop job ''state'')) w2
      in if navStatus = NavFailed
         then (let w4 = w3\<lparr>scrapeSession := (scrapeSession w3)\<lparr>pauseRequested := False\<rparr>\<rparr>
               in pause_job i rn1 True True Map.empty w4)
         else if navStatus = Moved then loop_head i rn1 w3
         else complete i rn1 w3)"

text \<open>After the LinkedIn check: the cookie has expired, or the loop is entered.\<close>

definition after_linkedin :: "bool \<Rightarrow> nat \<Rightarrow> runner \<Rightarrow> world \<Rightarrow> world" where
  "after_linkedin loggedIn i rn w =
     (if \<not> loggedIn
      then pause_job i rn False True
             [''stateReason'' \<mapsto> JStr ''cookie_expired'',
              ''message'' \<mapsto> JStr ''LinkedIn cookie expired. Please update your cookie.''] w
      else (let w1 = (if get_prop (obj_at w (r_job rn)) ''pageIndex'' = JNum 1
                      then set_prop (r_job rn) ''totalContacts'' (JNum 0)
                             (set_prop (r_job rn) ''totalRows'' (JNum 0) w)
                      else w);
                w2 = set_flags True False w1;
                rn1 = rn\<lparr>r_currentPage := get_prop (obj_at w2 (r_job rn)) ''pageIndex''\<rparr>
            in loop_head i rn1 w2))"

text \<open>After the browser launch and the two third-party logins, whose errors count as not logged in.\<close>

definition after_logins :: "bool \<Rightarrow> bool \<Rightarrow> nat \<Rightarrow> runner \<Rightarrow> world \<Rightarrow> world" where
  "after_logins co sh i rn w =
     (let rn1 = rn\<lparr>r_context := ContextOpen\<rparr>
      in if co \<and> sh then set_runner i (rn1\<lparr>r_pc := AwaitLinkedIn\<rparr>) w
         else pause_job i rn1 False False Map.empty w)"

text \<open>
  A runner goes on from its wait.  \<open>Threw\<close> at the browser launch rejects the call; at the
  LinkedIn check it reaches the outer handler; the extraction and scroll steps catch
  their own errors; at the next-page step it reaches the handler inside the loop, which
  ends the loop.
\<close>

fun resume_at :: "pc \<Rightarrow> answer \<Rightarrow> nat \<Rightarrow> runner \<Rightarrow> world \<Rightarrow> world" where
  "resume_at AwaitBrowser Threw i rn w = rejected i rn w"
| "resume_at AwaitBrowser (Logins co sh) i rn w = after_logins co sh i rn w"
| "resume_at AwaitLinkedIn Threw i rn w = pause_job i rn False True Map.empty w"
| "resume_at AwaitLinkedIn (LinkedIn loggedIn) i rn w = after_linkedin loggedIn i rn w"
| "resume_at AwaitSignalHire Threw i rn w = after_signalhire None i rn w"
| "resume_at AwaitSignalHire (Rows res) i rn w = after_signalhire res i rn w"
| "resume_at AwaitContactOut Threw i rn w = after_contactout None i rn w"
| "resume_at AwaitContactOut (Profiles res) i rn w = after_contactout res i rn w"
| "resume_at AwaitScroll Threw i rn w = after_scroll i rn w"
| "resume_at AwaitScroll Scrolled i rn w = after_scroll i rn w"
| "resume_at AwaitNextPage (Nav navStatus url) i rn w = after_next_page navStatus url i rn w"
| "resume_at AwaitNextPage Threw i rn w = complete i rn w"
| "resume_at p a i rn w = w"

text \<open>
  The outer handler, reached by an error thrown outside the handler of the loop; its own
  call of \<^verbatim>\<open>context.close()\<close> is guarded, and \<open>closed\<close> says whether it succeeds.
\<close>

definition outer_catch :: "bool \<Rightarrow> nat \<Rightarrow> runner \<Rightarrow> world \<Rightarrow> world" where
  "outer_catch closed i rn w = pause_job i rn False closed Map.empty w"

text \<open>
  An error thrown inside the handler of the loop: the handler ends the loop and the code
  after the loop runs, with its own call of \<^verbatim>\<open>context.close()\<close>.
\<close>

definition loop_catch :: "bool \<Rightarrow> nat \<Rightarrow> runner \<Rightarrow> world \<Rightarrow> world" where
  "loop_catch again i rn w =
     (if again
      then outer_catch False i rn
             (set_flags False False (set_prop (r_job rn) ''state'' (JStr ''completed'') w))
      else complete i rn w)"

text \<open>What a pause check writes before it closes the context.\<close>

definition pause_marks :: "runner \<Rightarrow> world \<Rightarrow> world" where
  "pause_marks rn w =
     (let w1 = set_prop (r_job rn) ''state'' (JStr ''paused'')
                 (set_prop (r_job rn) ''pageIndex'' (r_currentPage rn) w);
          ss = scrapeSession w1
      in w1\<lparr>scrapeSession := ss\<lparr>isScraping := False, isPaused := pauseRequested ss,
                                    pauseRequested := False\<rparr>\<rparr>)"

text \<open>
  The steps when the call of \<^verbatim>\<open>context.close()\<close> they reach throws.  The check at the
  top of the loop stands outside the handler of the loop, the other checks and the exit
  for a failed navigation stand inside it.  A step that reaches no such call goes as
  usual.
\<close>

definition linkedin_close_threw :: "bool \<Rightarrow> bool \<Rightarrow> nat \<Rightarrow> runner \<Rightarrow> world \<Rightarrow> world" where
  "linkedin_close_threw again loggedIn i rn w =
     (let w1 = (if get_prop (obj_at w (r_job rn)) ''pageIndex'' = JNum 1
                then set_prop (r_job rn) ''totalContacts'' (JNum 0)
                       (set_prop (r_job rn) ''totalRows'' (JNum 0) w)
                else w);
          w2 = set_flags True False w1;
          rn1 = rn\<lparr>r_currentPage := get_prop (obj_at w2 (r_job rn)) ''pageIndex''\<rparr>
      in if loggedIn \<and> stop_requested w2 rn1 then outer_catch (\<not> again) i rn1 (pause_marks rn1 w2)
         else after_linkedin loggedIn i rn w)"

definition signalhire_close_threw :: "bool \<Rightarrow> nat option \<Rightarrow> nat \<Rightarrow> runner \<Rightarrow> world \<Rightarrow> world" where
  "signalhire_close_threw again res i rn w =
     (let n = (case res of None \<Rightarrow> 0 | Some k \<Rightarrow> k);
          w1 = (case res of
                  None \<Rightarrow> w
                | Some k \<Rightarrow> set_prop (r_job rn) ''totalRows''
                             (plus_count (get_prop (obj_at w (r_job rn)) ''totalRows'') k) w);
          rn1 = rn\<lparr>r_shRows := n\<rparr>
      in if stop_requested w1 rn1 then loop_catch again i rn1 (pause_marks rn1 w1)
         else after_signalhire res i rn w)"

definition contactout_close_threw :: "bool \<Rightarrow> nat option \<Rightarrow> nat \<Rightarrow> runner \<Rightarrow> world \<Rightarrow> world" where
  "contactout_close_threw again res i rn w =
     (let w1 = (case res of
                  None \<Rightarrow> w
                | Some k \<Rightarrow> set_prop (r_job rn) ''totalContacts''
                             (plus_count (get_prop (obj_at w (r_job rn)) ''totalContacts'') k) w)
      in if stop_requested w1 rn then loop_catch again i rn (pause_marks rn w1)
         else after_contactout res i rn w)"

definition scroll_close_threw :: "bool \<Rightarrow> nat \<Rightarrow> runner \<Rightarrow> world \<Rightarrow> world" where
  "scroll_close_threw again i rn w =
     (if stop_requested w rn then loop_catch again i rn (pause_marks rn w)
      else after_scroll i rn w)"

definition next_page_close_threw ::
  "bool \<Rightarrow> nav \<Rightarrow> string option \<Rightarrow> nat \<Rightarrow> runner \<Rightarrow> world \<Rightarrow> world" where
  "next_page_close_threw again navStatus url i rn w =
     (let rn1 = (if navStatus = Moved then rn\<lparr>r_currentPage := plus_count (r_currentPage rn) 1\<rparr> else rn);
          w1 = set_prop (r_job rn) ''pageIndex'' (r_currentPage rn1) w;
          w2 = (case url of None \<Rightarrow> w1 | Some u \<Rightarrow> set_prop (r_job rn) ''currentUrl'' (JStr u) w1);
          job = obj_at w2 (r_job rn);
          w3 = update_swallow (r_jobId rn) ((progress (obj_at w2 (r_job rn)))(''state'' \<mapsto> get_prop job ''state'')) w2
      in if navStatus = NavFailed
         then (let w4 = w3\<lparr>scrapeSession := (scrapeSession w3)\<lparr>pauseRequested := False\<rparr>\<rparr>
               in loop_catch again i rn1
                    (set_prop (r_job rn) ''state'' (JStr ''paused'') (set_flags False True w4)))
         else if navStatus = Moved
           then (if stop_requested w3 rn1 then outer_catch (\<not> again) i rn1 (pause_marks rn1 w3)
                 else loop_head i rn1 w3)
         else outer_catch (\<not> again) i rn1
                (set_flags False False (set_prop (r_job rn) ''state'' (JStr ''completed'') w3)))"

fun close_threw :: "bool \<Rightarrow> pc \<Rightarrow> answer \<Rightarrow> nat \<Rightarrow> runner \<Rightarrow> world \<Rightarrow> world" where
  "close_threw again AwaitLinkedIn (LinkedIn loggedIn) i rn w = linkedin_close_threw again loggedIn i rn w"
| "close_threw again AwaitSignalHire Threw i rn w = signalhire_close_threw again None i rn w"
| "close_threw again AwaitSignalHire (Rows res) i rn w = signalhire_close_threw again res i rn w"
| "close_threw again AwaitContactOut Threw i rn w = contactout_close_threw again None i rn w"
| "close_threw again AwaitContactOut (Profiles res) i rn w = contactout_close_threw again res i rn w"
| "close_threw again AwaitScroll Threw i rn w = scroll_close_threw again i rn w"
| "close_threw again AwaitScroll Scrolled i rn w = scroll_close_threw again i rn w"
| "close_threw again AwaitNextPage (Nav navStatus url) i rn w = next_page_close_threw again navStatus url i rn w"
| "close_threw again AwaitNextPage Threw i rn w =
     outer_catch (\<not> again) i rn
       (set_flags False False (set_prop (r_job rn) ''state'' (JStr ''completed'') w))"
| "close_threw again p a i rn w = resume_at p a i rn w"

definition advance :: "nat \<Rightarrow> answer \<Rightarrow> world \<Rightarrow> world" where
  "advance i a w =
     (if i < length (runners w)
      then (case a of
              CloseThrew b again \<Rightarrow> close_threw again (r_pc (runners w ! i)) b i (runners w ! i) w
            | _ \<Rightarrow> resume_at (r_pc (runners w ! i)) a i (runners w ! i) w)
      else w)"

text \<open>A call of \<^verbatim>\<open>runScrape()\<close>, up to the launch of the browser.\<close>

definition runScrape :: "caller \<Rightarrow> world \<Rightarrow> world" where
  "runScrape c w =
     (let jobId = currentJobId (scrapeSession w)
      in case get_prop (obj_at w (routes_jobs w)) (key_of jobId) of
           JRef job \<Rightarrow>
             (if \<not> cookieFile w
              then (let w1 = set_prop job ''state'' (JStr ''paused'') (set_flags False False w)
                    in update_swallow jobId ((progress (obj_at w1 job))(''state'' \<mapsto> JStr ''paused'')) w1)
              else w\<lparr>runners := runners w @
                        [\<lparr>r_jobId = jobId, r_job = job, r_caller = c, r_pc = AwaitBrowser,
                          r_context = NotLaunched, r_currentPage = JUndefined, r_shRows = 0\<rparr>]\<rparr>)
         | v \<Rightarrow> set_flags False False w)"

text \<open>The block of the create and run handlers that pauses the job that is running.\<close>

definition pause_current :: "world \<Rightarrow> world" where
  "pause_current w =
     (case currentJobId (scrapeSession w) of
        None \<Rightarrow> w
      | Some currentId \<Rightarrow>
         (case get_prop (obj_at w (routes_jobs w)) currentId of
            JRef cur \<Rightarrow>
              (if isScraping (scrapeSession w) \<and> currentId \<noteq> []
               then (let w1 = w\<lparr>scrapeSession := (scrapeSession w)\<lparr>pauseRequested := True\<rparr>\<rparr>;
                         w2 = set_prop cur ''state'' (JStr ''paused'') w1;
                         pageIndex = (if truthy (get_prop (obj_at w2 cur) ''pageIndex'')
                                      then get_prop (obj_at w2 cur) ''pageIndex'' else JNum 1);
                         w3 = set_prop cur ''pageIndex'' pageIndex w2
                     in update_swallow (Some currentId)
                          [''state'' \<mapsto> JStr ''paused'', ''pageIndex'' \<mapsto> pageIndex] w3)
               else w)
          | v \<Rightarrow> w))"

definition make_current :: "string \<Rightarrow> world \<Rightarrow> world" where
  "make_current jobId w =
     w\<lparr>scrapeSession := \<lparr>isScraping = True, isPaused = False, pauseRequested = False,
                          currentJobId = Some jobId\<rparr>\<rparr>"

text \<open>\<^verbatim>\<open>listName.replace(/\s+/g, '_')\<close>; \<open>inRun\<close> holds after a whitespace character.\<close>

fun slug :: "bool \<Rightarrow> string \<Rightarrow> string" where
  "slug inRun [] = []"
| "slug inRun (c # cs) =
     (if is_space c then (if inRun then slug True cs else CHR ''_'' # slug True cs)
      else c # slug False cs)"

text \<open>
  POST /api/scrape.  \<open>timestamp\<close> is the reading of the clock.  The persistence error of
  \<^verbatim>\<open>setJob\<close> is swallowed.
\<close>

definition post_scrape :: "string \<Rightarrow> string \<Rightarrow> string \<Rightarrow> world \<Rightarrow> world" where
  "post_scrape url listName timestamp w =
     (if url = [] then w
      else if listName = [] \<or> trim listName = [] then w
      else if \<not> (str_includes (toLowerCase url) ''linkedin.com'' \<and> str_includes (toLowerCase url) ''people'')
        then w
      else if \<not> cookieFile w then w
      else (let w1 = pause_current w;
                jobId = slug False listName @ ''_'' @ timestamp;
                fileName = jobId @ ''.csv'';
                a = alloc [''id'' \<mapsto> JStr jobId, ''url'' \<mapsto> JStr url, ''listName'' \<mapsto> JStr listName,
                           ''timestamp'' \<mapsto> JStr timestamp, ''fileName'' \<mapsto> JStr fileName,
                           ''filePath'' \<mapsto> JStr (''data/'' @ fileName), ''pageIndex'' \<mapsto> JNum 1,
                           ''totalRows'' \<mapsto> JNum 0, ''totalContacts'' \<mapsto> JNum 0,
                           ''state'' \<mapsto> JStr ''running'', ''currentUrl'' \<mapsto> JStr url] w1;
                w2 = set_prop (routes_jobs w1) jobId (JRef (fst a)) (snd a);
                w3 = snd (setJob (fst a) w2)
            in runScrape FromCreate (make_current jobId w3)))"

text \<open>POST /api/jobs/:id/run\<close>

definition post_run :: "string \<Rightarrow> world \<Rightarrow> world" where
  "post_run ident w =
     (case get_prop (obj_at w (routes_jobs w)) ident of
        JRef job \<Rightarrow>
          (if currentJobId (scrapeSession w) = Some ident \<and> isScraping (scrapeSession w) then w
           else (let w1 = pause_current w;
                     w2 = set_prop job ''state'' (JStr ''running'') (make_current ident w1);
                     w3 = update_swallow (Some ident) [''state'' \<mapsto> JStr ''running''] w2
                 in runScrape FromRun w3))
      | v \<Rightarrow> w)"

text \<open>POST /api/resume\<close>

definition post_resume :: "world \<Rightarrow> world" where
  "post_resume w =
     (case currentJobId (scrapeSession w) of
        None \<Rightarrow> w
      | Some jobId \<Rightarrow>
         (case get_prop (obj_at w (routes_jobs w)) jobId of
            JRef job \<Rightarrow>
              (if isPaused (scrapeSession w) \<and> jobId \<noteq> []
               then (let w1 = set_prop job ''state'' (JStr ''running'') w;
                         w2 = update_swallow (Some jobId) [''state'' \<mapsto> JStr ''running''] w1;
                         w3 = w2\<lparr>scrapeSession := (scrapeSession w2)\<lparr>isPaused := False, isScraping := True,
                                                                    pauseRequested := False\<rparr>\<rparr>
                     in runScrape FromResume w3)
               else w)
          | v \<Rightarrow> w))"

text \<open>
  What happens to the process: a request arrives, or runner \<open>i\<close> comes back from its
  wait with an answer.  A handler, and a runner between two of its waits, is one step: the
  short waits for persistence and for closing the browser context inside them are not
  taken as points where other code runs.
\<close>

datatype event = PostScrape string string string | PostRun string | PostResume | Advance nat answer

fun apply_event :: "event \<Rightarrow> world \<Rightarrow> world" where
  "apply_event (PostScrape url listName timestamp) w = post_scrape url listName timestamp w"
| "apply_event (PostRun ident) w = post_run ident w"
| "apply_event PostResume w = post_resume w"
| "apply_event (Advance i a) w = advance i a w"

fun exec :: "event list \<Rightarrow> world \<Rightarrow> world" where
  "exec [] w = w"
| "exec (e # es) w = exec es (apply_event e w)"

text \<open>
  The process after start-up with an empty \<^verbatim>\<open>all_jobs\<close> directory.  The routes module
  took its \<^verbatim>\<open>jobs\<close> from \<^verbatim>\<open>getJobs()\<close> while \<^verbatim>\<open>loadJobs()\<close> was still waiting for the
  directory, so it holds the first cache object (reference 0); \<^verbatim>\<open>loadJobs()\<close> then
  installed a new one (reference 1).
\<close>

definition boot :: world where
  "boot = \<lparr>heap = [0 \<mapsto> Map.empty, 1 \<mapsto> Map.empty], next_ref = 2, jobsCache = 1, disk = Map.empty,
           writable = True, routes_jobs = 0,
           scrapeSession = \<lparr>isScraping = False, isPaused = False, pauseRequested = False, currentJobId = None\<rparr>,
           cookieFile = True, runners = []\<rparr>"

definition state_of :: "world \<Rightarrow> string \<Rightarrow> jsval" where
  "state_of w jobId = (case getJob w jobId of JRef job \<Rightarrow> get_prop (obj_at w job) ''state'' | v \<Rightarrow> JUndefined)"

definition field_of :: "world \<Rightarrow> string \<Rightarrow> string \<Rightarrow> jsval" where
  "field_of w jobId k = (case getJob w jobId of JRef job \<Rightarrow> get_prop (obj_at w job) k | v \<Rightarrow> JUndefined)"

definition sales_url :: string where
  "sales_url = ''https://www.linkedin.com/sales/search/people?query=x''"

text \<open>Sample runs of the process.\<close>

definition first_page :: "event list" where
  "first_page =
     [PostScrape sales_url ''A'' ''t1'', Advance 0 (Logins True True), Advance 0 (LinkedIn True),
      Advance 0 (Rows (Some 0)), Advance 0 Scrolled]"

definition preemption :: "event list" where
  "preemption =
     [PostScrape sales_url ''A'' ''t1'', Advance 0 (Logins True True), Advance 0 (LinkedIn True),
      PostScrape sales_url ''B'' ''t2'', Advance 0 (Rows (Some 0)), PostScrape sales_url ''C'' ''t3'']"

text \<open>Job A is running when job B is created; A's runner then comes back from the extraction.\<close>

definition preempted :: "event list" where
  "preempted =
     [PostScrape sales_url ''A'' ''t1'', Advance 0 (Logins True True), Advance 0 (LinkedIn True),
      PostScrape sales_url ''B'' ''t2'']"

definition created :: world where
  "created = post_scrape sales_url ''A'' ''t1'' boot"

section \<open>Properties of the CSV writer\<close>

text \<open>
  C7: calling the CSV writer with a missing or an empty rows array returns the resolved
  path and leaves the file system as it was: no file is created or modified and no
  directory is created.
\<close>

theorem saveProfilesCsv_empty_rows_noop:
  "fst (saveProfilesCsv None opts fs) = fs \<and> fst (saveProfilesCsv (Some []) opts fs) = fs"
  by (simp add: saveProfilesCsv_def Let_def)

lemma str_includes_appendD: "str_includes s (a @ b) \<Longrightarrow> str_includes s a"
  by (induction s) (auto dest: append_prefixD)

text \<open>
  A header that contains \<^verbatim>\<open>domain1\<close> contains \<^verbatim>\<open>domain\<close>, so the branches for the
  legacy columns are never taken.
\<close>

lemma chooseColumns_never_legacy:
  "chooseColumnsForExistingHeader h \<in> {EXT_DOMAIN_EMAIL, EXT_DOMAIN, EXT_EMAIL, BASE_COLUMNS}"
proof -
  have "str_includes s ''domain''" if "str_includes s ''domain1''" for s
    using str_includes_appendD [of s "''domain''" "''1''"] that by simp
  then show ?thesis
    by (auto simp: chooseColumnsForExistingHeader_def Let_def)
qed

text \<open>Appending to a file whose first line is terminated leaves that line as it is.\<close>

lemma first_line_append:
  "LF \<in> set content \<or> CR \<in> set content \<Longrightarrow> first_line (content @ body) = first_line content"
proof -
  assume "LF \<in> set content \<or> CR \<in> set content"
  then obtain x where x: "x \<in> set content" "\<not> (x \<noteq> LF \<and> x \<noteq> CR)" by auto
  then have "takeWhile (\<lambda>c. c \<noteq> LF \<and> c \<noteq> CR) (content @ body)
             = takeWhile (\<lambda>c. c \<noteq> LF \<and> c \<noteq> CR) content"
    by (rule takeWhile_append1)
  moreover from x(1) have "content \<noteq> []" by auto
  ultimately show ?thesis by (simp add: first_line_def)
qed

text \<open>
  Appending to an existing file adds the rows, written with the columns chosen from the
  first line, after the old content; with a terminated first line the header stays.
\<close>

lemma saveProfilesCsv_append:
  assumes "files fs p = Some content" and "o_filePath opts = Some p" and "o_append opts \<noteq> Some False"
    and "rows \<noteq> []"
  shows "files (fst (saveProfilesCsv (Some rows) opts fs)) p
         = Some (content @ body_text (chooseColumnsForExistingHeader (first_line content))
                             (ensureKeysForColumns rows (chooseColumnsForExistingHeader (first_line content))))"
proof -
  obtain r rs where rows: "rows = r # rs" using assms(4) by (cases rows) auto
  have ex: "existsSync (mkdir_p (path_dirname p) fs) p"
    using assms(1) by (simp add: existsSync_def mkdir_p_def)
  have hd: "readHeaderLine (mkdir_p (path_dirname p) fs) p = first_line content"
    using assms(1) by (simp add: readHeaderLine_def mkdir_p_def)
  have app: "o_append opts = Some True \<or> o_append opts = None"
    using assms(3) by (cases "o_append opts") auto
  show ?thesis
    using assms(1,2) ex hd app
    by (auto simp: saveProfilesCsv_def Let_def rows appendFile_def mkdir_p_def)
qed

lemma saveProfilesCsv_append_keeps_header:
  assumes "files fs p = Some content" and "o_filePath opts = Some p" and "o_append opts \<noteq> Some False"
    and "rows \<noteq> []" and "LF \<in> set content \<or> CR \<in> set content"
  shows "readHeaderLine (fst (saveProfilesCsv (Some rows) opts fs)) p = readHeaderLine fs p"
  using saveProfilesCsv_append [OF assms(1-4)] assms(1) first_line_append [OF assms(5)]
  by (simp add: readHeaderLine_def)

text \<open>
  C6 at a file with the legacy header (nine columns, ending in domain1 and domain2): the
  header is classified as the one-domain schema, and the appended row has eight fields,
  its domain1 and domain2 values left out.
\<close>

theorem saveProfilesCsv_legacy_header_mismatch:
  "chooseColumnsForExistingHeader (readHeaderLine legacy_fs ''/data/list.csv'') = EXT_DOMAIN
   \<and> files (fst (saveProfilesCsv (Some [new_row]) append_opts legacy_fs)) ''/data/list.csv''
       = Some (legacy_file
               @ join (map (\<lambda>v. esc (Some v))
                         [''Bob Roy'', [], [], [], [], [], ''https://x/in/bob'', []]) '',''
               @ CRLF)
   \<and> length legacy_columns = 9 \<and> length EXT_DOMAIN = 8"
  by code_simp

section \<open>Properties of the deduplication\<close>

lemma find_key_col_in_header: "find_key_col tx header aliases = Some k \<Longrightarrow> k \<in> set header \<and> k \<noteq> []"
  by (induction aliases) (auto split: option.splits if_splits simp: find_Some_iff)

lemma dedup_loop_subseq: "subseq (dedup_loop tx k seen rows) rows"
  by (induction rows arbitrary: seen) (auto simp: Let_def)

lemma dedup_loop_keeps_empty:
  "filter (\<lambda>r. row_key tx k r = []) (dedup_loop tx k seen rows) = filter (\<lambda>r. row_key tx k r = []) rows"
  by (induction rows arbitrary: seen) (auto simp: Let_def)

lemma dedup_loop_fresh:
  "r \<in> set (dedup_loop tx k seen rows) \<Longrightarrow> row_key tx k r \<noteq> [] \<Longrightarrow> row_key tx k r \<notin> set seen"
proof (induction rows arbitrary: seen)
  case Nil
  then show ?case by simp
next
  case (Cons a rows)
  show ?case
  proof (cases "row_key tx k a = [] \<or> row_key tx k a \<in> set seen")
    case True
    with Cons.prems have "r = a \<and> row_key tx k a = [] \<or> r \<in> set (dedup_loop tx k seen rows)"
      by (auto simp: Let_def split: if_splits)
    with Cons show ?thesis by blast
  next
    case False
    with Cons.prems have "r = a \<or> r \<in> set (dedup_loop tx k (row_key tx k a # seen) rows)"
      by (auto simp: Let_def)
    then show ?thesis
    proof
      assume "r = a"
      with False show ?thesis by simp
    next
      assume "r \<in> set (dedup_loop tx k (row_key tx k a # seen) rows)"
      from Cons.IH [OF this Cons.prems(2)] show ?thesis by simp
    qed
  qed
qed

lemma dedup_loop_distinct:
  "distinct (map (row_key tx k) (filter (\<lambda>r. row_key tx k r \<noteq> []) (dedup_loop tx k seen rows)))"
proof (induction rows arbitrary: seen)
  case Nil
  then show ?case by simp
next
  case (Cons a rows)
  have "row_key tx k a \<notin> set (map (row_key tx k) (filter (\<lambda>r. row_key tx k r \<noteq> []) (dedup_loop tx k (row_key tx k a # seen) rows)))"
  proof
    assume "row_key tx k a \<in> set (map (row_key tx k) (filter (\<lambda>r. row_key tx k r \<noteq> []) (dedup_loop tx k (row_key tx k a # seen) rows)))"
    then obtain x where x: "x \<in> set (dedup_loop tx k (row_key tx k a # seen) rows)" "row_key tx k x \<noteq> []"
      "row_key tx k x = row_key tx k a" by auto
    from dedup_loop_fresh [OF x(1) x(2)] x(3) show False by simp
  qed
  with Cons show ?case by (auto simp: Let_def)
qed

lemma dedup_loop_first:
  "v \<notin> set seen \<Longrightarrow>
   find (\<lambda>r. v \<noteq> [] \<and> row_key tx k r = v) (dedup_loop tx k seen rows) = find (\<lambda>r. v \<noteq> [] \<and> row_key tx k r = v) rows"
  by (induction rows arbitrary: seen) (auto simp: Let_def)

lemma duplicate_file_parsed:
  "csv_parse csv_model duplicate_file =
     Some [[(''Name'', ''Ann''), (''LinkedIn URL'', ''https://x/in/ann'')],
           [(''Name'', ''Bob''), (''LinkedIn URL'', [])],
           [(''Name'', ''Ann L''), (''LinkedIn URL'', ''HTTPS://x/in/Ann'')],
           [(''Name'', ''Cy''), (''LinkedIn URL'', [])]]"
  by code_simp

lemma duplicate_file_reads_back:
  "reads_back csv_model [''Name'', ''LinkedIn URL'']
     (dedup_loop ascii_only ''LinkedIn URL'' []
        [[(''Name'', ''Ann''), (''LinkedIn URL'', ''https://x/in/ann'')],
         [(''Name'', ''Bob''), (''LinkedIn URL'', [])],
         [(''Name'', ''Ann L''), (''LinkedIn URL'', ''HTTPS://x/in/Ann'')],
         [(''Name'', ''Cy''), (''LinkedIn URL'', [])]])"
  by code_simp

lemma duplicate_file_key:
  "find_key_col ascii_only [''Name'', ''LinkedIn URL''] DEFAULT_KEY_ALIASES = Some ''LinkedIn URL''"
  by code_simp

text \<open>
  What a run writes when a key column is found among the properties of the first record:
  the file is rewritten with the columns of the first record in their order and with
  these rows: the rows in their original order, every row whose normalised key is empty,
  and for each non-empty key exactly the first row that has it.  The file system is left
  untouched when the packages or the file are missing, the text does not parse, it holds
  no record, or no alias matches a property of the first record.
\<close>

lemma deduplicateCsv_retained_rows:
  "deduplicateCsv tx None p aliases fs = fs \<and>
   (let D = deduplicateCsv tx (Some l) p aliases fs
    in case files fs p of
         None \<Rightarrow> D = fs
       | Some raw \<Rightarrow>
          (case csv_parse l raw of
             None \<Rightarrow> D = fs
           | Some [] \<Rightarrow> D = fs
           | Some (r # rows) \<Rightarrow>
              (case find_key_col tx (map fst r) aliases of
                 None \<Rightarrow> D = fs
               | Some k \<Rightarrow>
                  D = writeFile p (csv_stringify l (map fst r) (dedup_loop tx k [] (r # rows))) fs
                  \<and> k \<in> set (map fst r)
                  \<and> subseq (dedup_loop tx k [] (r # rows)) (r # rows)
                  \<and> filter (\<lambda>x. row_key tx k x = []) (dedup_loop tx k [] (r # rows))
                      = filter (\<lambda>x. row_key tx k x = []) (r # rows)
                  \<and> distinct (map (row_key tx k)
                       (filter (\<lambda>x. row_key tx k x \<noteq> []) (dedup_loop tx k [] (r # rows))))
                  \<and> (\<forall>v. find (\<lambda>x. v \<noteq> [] \<and> row_key tx k x = v) (dedup_loop tx k [] (r # rows))
                          = find (\<lambda>x. v \<noteq> [] \<and> row_key tx k x = v) (r # rows)))))"
proof -
  have none: "deduplicateCsv tx None p aliases fs = fs"
    by (simp add: deduplicateCsv_def split: option.splits)
  have props: "k \<in> set (map fst r)
      \<and> subseq (dedup_loop tx k [] (r # rows)) (r # rows)
      \<and> filter (\<lambda>x. row_key tx k x = []) (dedup_loop tx k [] (r # rows))
          = filter (\<lambda>x. row_key tx k x = []) (r # rows)
      \<and> distinct (map (row_key tx k) (filter (\<lambda>x. row_key tx k x \<noteq> []) (dedup_loop tx k [] (r # rows))))
      \<and> (\<forall>v. find (\<lambda>x. v \<noteq> [] \<and> row_key tx k x = v) (dedup_loop tx k [] (r # rows))
              = find (\<lambda>x. v \<noteq> [] \<and> row_key tx k x = v) (r # rows))"
    if "find_key_col tx (map fst r) aliases = Some k" for r rows k
    using find_key_col_in_header [OF that] dedup_loop_subseq [of tx k "[]" "r # rows"]
      dedup_loop_keeps_empty [of tx k "[]" "r # rows"] dedup_loop_distinct [of tx k "[]" "r # rows"]
      dedup_loop_first [of _ "[]" tx k "r # rows"]
    by (simp del: dedup_loop.simps)
  show ?thesis
    using none props
    by (simp add: deduplicateCsv_def Let_def split: option.splits list.splits del: dedup_loop.simps)
qed

lemma short_first_file_parsed:
  "csv_parse csv_model short_first_file
     = Some [[(''Name'', ''Ann'')],
             [(''Name'', ''Bob''), (''LinkedIn URL'', ''https://x/in/bob'')],
             [(''Name'', ''Bob B''), (''LinkedIn URL'', ''https://x/in/bob'')]]"
  by code_simp

lemma short_first_file_key: "find_key_col ascii_only [''Name''] DEFAULT_KEY_ALIASES = None"
  by code_simp

lemma short_first_file_untouched:
  "deduplicateCsv ascii_only (Some csv_model) ''/data/list.csv'' DEFAULT_KEY_ALIASES (data_fs short_first_file)
   = data_fs short_first_file"
proof -
  have f: "files (data_fs short_first_file) ''/data/list.csv'' = Some short_first_file"
    by (simp add: data_fs_def)
  show ?thesis
    unfolding deduplicateCsv_def f option.case short_first_file_parsed list.case Let_def list.map fst_conv
      short_first_file_key
    by (rule refl)
qed

text \<open>
  C9 at a file whose first record is shorter than the header row.  The key column is
  looked up among the properties of the first record, not in the header row.  In the
  first file the header row has the column \<^verbatim>\<open>LinkedIn URL\<close>, which the first alias
  matches, and the second and third record have the same URL; the first record has no
  value for that column, no key column is found, and the file is left as it was, with
  both rows.  In the second file the first record has no value for the last column, and
  the file is rewritten without that column.
\<close>

theorem deduplicateCsv_key_from_first_record:
  "csv_parse csv_model short_first_file
     = Some [[(''Name'', ''Ann'')],
             [(''Name'', ''Bob''), (''LinkedIn URL'', ''https://x/in/bob'')],
             [(''Name'', ''Bob B''), (''LinkedIn URL'', ''https://x/in/bob'')]]
   \<and> find_key_col ascii_only [''Name'', ''LinkedIn URL''] DEFAULT_KEY_ALIASES = Some ''LinkedIn URL''
   \<and> find_key_col ascii_only [''Name''] DEFAULT_KEY_ALIASES = None
   \<and> deduplicateCsv ascii_only (Some csv_model) ''/data/list.csv'' DEFAULT_KEY_ALIASES
        (data_fs short_first_file) = data_fs short_first_file
   \<and> files (deduplicateCsv ascii_only (Some csv_model) ''/data/list.csv'' DEFAULT_KEY_ALIASES
               (data_fs short_record_file)) ''/data/list.csv''
       = Some (BOM @ ''LinkedIn URL,Name'' @ [LF] @ ''https://x/in/ann,Ann'' @ [LF]
                 @ ''https://x/in/bob,Bob'' @ [LF])"
proof -
  have a: "find_key_col ascii_only [''Name'', ''LinkedIn URL''] DEFAULT_KEY_ALIASES = Some ''LinkedIn URL''"
    by code_simp
  have b: "files (deduplicateCsv ascii_only (Some csv_model) ''/data/list.csv'' DEFAULT_KEY_ALIASES
               (data_fs short_record_file)) ''/data/list.csv''
       = Some (BOM @ ''LinkedIn URL,Name'' @ [LF] @ ''https://x/in/ann,Ann'' @ [LF]
                 @ ''https://x/in/bob,Bob'' @ [LF])"
    by code_simp
  from short_first_file_parsed a short_first_file_key short_first_file_untouched b
  show ?thesis by (intro conjI)
qed

lemma dedup_loop_fixed:
  "distinct (map (row_key tx k) (filter (\<lambda>r. row_key tx k r \<noteq> []) xs)) \<Longrightarrow>
   set (map (row_key tx k) xs) \<inter> set seen \<subseteq> {[]} \<Longrightarrow> dedup_loop tx k seen xs = xs"
proof (induction xs arbitrary: seen)
  case Nil
  show ?case by simp
next
  case (Cons a xs)
  show ?case
  proof (cases "row_key tx k a = []")
    case True
    with Cons.prems have "distinct (map (row_key tx k) (filter (\<lambda>r. row_key tx k r \<noteq> []) xs))"
      and "set (map (row_key tx k) xs) \<inter> set seen \<subseteq> {[]}" by auto
    with Cons.IH [of seen] True show ?thesis by simp
  next
    case False
    with Cons.prems have d: "distinct (map (row_key tx k) (filter (\<lambda>r. row_key tx k r \<noteq> []) xs))"
      and n: "row_key tx k a \<notin> set (map (row_key tx k) (filter (\<lambda>r. row_key tx k r \<noteq> []) xs))"
      and s: "row_key tx k a \<notin> set seen" by auto
    from n False have "row_key tx k a \<notin> set (map (row_key tx k) xs)" by auto
    with Cons.prems(2) have "set (map (row_key tx k) xs) \<inter> set (row_key tx k a # seen) \<subseteq> {[]}" by auto
    with Cons.IH [of "row_key tx k a # seen"] d False s show ?thesis by simp
  qed
qed

lemma dedup_loop_idem: "dedup_loop tx k [] (dedup_loop tx k [] rows) = dedup_loop tx k [] rows"
  by (rule dedup_loop_fixed) (simp_all add: dedup_loop_distinct)

lemma map_of_project:
  "k \<in> set header \<Longrightarrow> map_of (project header r) k = Some (case map_of r k of None \<Rightarrow> [] | Some v \<Rightarrow> v)"
  by (induction header) (auto simp: project_def)

lemma row_key_project: "k \<in> set header \<Longrightarrow> row_key tx k (project header r) = row_key tx k r"
  by (simp add: row_key_def map_of_project split: option.splits)

lemma dedup_loop_project:
  "k \<in> set header \<Longrightarrow>
   dedup_loop tx k seen (map (project header) rows) = map (project header) (dedup_loop tx k seen rows)"
  by (induction rows arbitrary: seen) (simp_all add: Let_def row_key_project)

lemma dedup_loop_first_kept: "dedup_loop tx k [] (r # rows) = r # tl (dedup_loop tx k [] (r # rows))"
  by (simp add: Let_def)

lemma deduplicateCsv_second_run:
  assumes raw: "files fs p = Some raw"
    and parsed: "csv_parse l raw = Some (r # rows)"
    and key: "find_key_col tx (map fst r) aliases = Some k"
    and rb: "reads_back l (map fst r) (dedup_loop tx k [] (r # rows))"
  shows "deduplicateCsv tx (Some l) p aliases (deduplicateCsv tx (Some l) p aliases fs)
         = deduplicateCsv tx (Some l) p aliases fs"
proof -
  define h where "h = map fst r"
  define d where "d = dedup_loop tx k [] (r # rows)"
  define out where "out = csv_stringify l h d"
  have first: "deduplicateCsv tx (Some l) p aliases fs = writeFile p out fs"
    using raw parsed key by (simp add: deduplicateCsv_def h_def d_def out_def)
  have kh: "k \<in> set h"
    using key find_key_col_in_header [of tx "map fst r" aliases k] by (simp add: h_def)
  obtain t where dt: "d = r # t"
    using dedup_loop_first_kept [of tx k r rows] by (auto simp: d_def)
  have rb': "csv_parse l out = Some (map (project h) d)" "csv_stringify l h (map (project h) d) = out"
    using rb by (simp_all add: reads_back_def h_def d_def out_def)
  have hdr: "map fst (project h r) = h" by (simp add: project_def o_def)
  have "dedup_loop tx k [] (map (project h) d) = map (project h) (dedup_loop tx k [] d)"
    using kh by (rule dedup_loop_project)
  also have "dedup_loop tx k [] d = d" unfolding d_def by (rule dedup_loop_idem)
  finally have again: "dedup_loop tx k [] (map (project h) d) = map (project h) d" .
  have "deduplicateCsv tx (Some l) p aliases (writeFile p out fs)
        = writeFile p (csv_stringify l h (dedup_loop tx k [] (map (project h) d))) (writeFile p out fs)"
    using rb'(1) hdr key dt
    by (simp add: deduplicateCsv_def writeFile_def h_def [symmetric] del: dedup_loop.simps)
  then have "deduplicateCsv tx (Some l) p aliases (writeFile p out fs) = writeFile p out (writeFile p out fs)"
    by (simp only: again rb'(2))
  then show ?thesis by (simp add: first writeFile_def)
qed

text \<open>
  C8, as the code has it: a second run of the deduplication leaves the file system as
  the first run left it, provided the CSV library reads back what the first run wrote
  (the records it serialised parse to the same records).  When the first run writes
  nothing, the second run writes nothing either.
\<close>

theorem deduplicateCsv_idempotent:
  assumes "\<And>l raw r rows k. lib = Some l \<Longrightarrow> files fs p = Some raw \<Longrightarrow> csv_parse l raw = Some (r # rows) \<Longrightarrow>
             find_key_col tx (map fst r) aliases = Some k \<Longrightarrow>
             reads_back l (map fst r) (dedup_loop tx k [] (r # rows))"
  shows "deduplicateCsv tx lib p aliases (deduplicateCsv tx lib p aliases fs) = deduplicateCsv tx lib p aliases fs"
proof -
  have "deduplicateCsv tx lib p aliases fs = fs \<or>
        (\<exists>l raw r rows k. lib = Some l \<and> files fs p = Some raw \<and> csv_parse l raw = Some (r # rows) \<and>
           find_key_col tx (map fst r) aliases = Some k)"
    by (auto simp: deduplicateCsv_def Let_def split: option.splits list.splits)
  then show ?thesis
  proof
    assume "deduplicateCsv tx lib p aliases fs = fs"
    then show ?thesis by simp
  next
    assume "\<exists>l raw r rows k. lib = Some l \<and> files fs p = Some raw \<and> csv_parse l raw = Some (r # rows) \<and>
           find_key_col tx (map fst r) aliases = Some k"
    then obtain l raw r rows k where *: "lib = Some l" "files fs p = Some raw" "csv_parse l raw = Some (r # rows)"
      "find_key_col tx (map fst r) aliases = Some k" by blast
    from assms [OF *] * show ?thesis by (simp add: deduplicateCsv_second_run)
  qed
qed

theorem deduplicateCsv_idempotent_witness:
  "files (deduplicateCsv ascii_only (Some csv_model) ''/data/list.csv'' DEFAULT_KEY_ALIASES
            (deduplicateCsv ascii_only (Some csv_model) ''/data/list.csv'' DEFAULT_KEY_ALIASES (data_fs duplicate_file)))
         ''/data/list.csv''
   = Some (BOM @ ''Name,LinkedIn URL'' @ [LF] @ ''Ann,https://x/in/ann'' @ [LF] @ ''Bob,'' @ [LF] @ ''Cy,'' @ [LF])"
proof -
  have h: "reads_back l (map fst r) (dedup_loop ascii_only k [] (r # rows))"
    if "Some csv_model = Some l" "files (data_fs duplicate_file) ''/data/list.csv'' = Some raw"
      "csv_parse l raw = Some (r # rows)" "find_key_col ascii_only (map fst r) DEFAULT_KEY_ALIASES = Some k"
    for l raw r rows k
  proof -
    from that(1) have l: "l = csv_model" by simp
    from that(2) have raw: "raw = duplicate_file" by (simp add: data_fs_def)
    from that(3) have "csv_parse csv_model duplicate_file = Some (r # rows)" unfolding l raw .
    then have r: "r = [(''Name'', ''Ann''), (''LinkedIn URL'', ''https://x/in/ann'')]"
      and rows: "rows = [[(''Name'', ''Bob''), (''LinkedIn URL'', [])],
           [(''Name'', ''Ann L''), (''LinkedIn URL'', ''HTTPS://x/in/Ann'')],
           [(''Name'', ''Cy''), (''LinkedIn URL'', [])]]"
      unfolding duplicate_file_parsed by simp_all
    from that(4) have "find_key_col ascii_only [''Name'', ''LinkedIn URL''] DEFAULT_KEY_ALIASES = Some k"
      unfolding r list.map fst_conv .
    then have k: "k = ''LinkedIn URL''" unfolding duplicate_file_key by simp
    show ?thesis unfolding l r rows k list.map fst_conv by (rule duplicate_file_reads_back)
  qed
  have first: "files (deduplicateCsv ascii_only (Some csv_model) ''/data/list.csv'' DEFAULT_KEY_ALIASES (data_fs duplicate_file))
         ''/data/list.csv''
     = Some (BOM @ ''Name,LinkedIn URL'' @ [LF] @ ''Ann,https://x/in/ann'' @ [LF] @ ''Bob,'' @ [LF] @ ''Cy,'' @ [LF])"
    by code_simp
  have "deduplicateCsv ascii_only (Some csv_model) ''/data/list.csv'' DEFAULT_KEY_ALIASES
            (deduplicateCsv ascii_only (Some csv_model) ''/data/list.csv'' DEFAULT_KEY_ALIASES (data_fs duplicate_file))
        = deduplicateCsv ascii_only (Some csv_model) ''/data/list.csv'' DEFAULT_KEY_ALIASES (data_fs duplicate_file)"
    using h by (rule deduplicateCsv_idempotent)
  then show ?thesis by (simp only: first)
qed

text \<open>
  The claim as stated fails on a field that is padded inside quotes: the first run writes
  it without quotes, the parser then trims it, and the second run writes different bytes.
\<close>

theorem deduplicateCsv_not_idempotent:
  "files (deduplicateCsv ascii_only (Some csv_model) ''/data/list.csv'' DEFAULT_KEY_ALIASES
            (deduplicateCsv ascii_only (Some csv_model) ''/data/list.csv'' DEFAULT_KEY_ALIASES (data_fs padded_file)))
         ''/data/list.csv''
   \<noteq> files (deduplicateCsv ascii_only (Some csv_model) ''/data/list.csv'' DEFAULT_KEY_ALIASES (data_fs padded_file))
         ''/data/list.csv''"
  by code_simp

section \<open>Properties of the primary-extraction save path\<close>

lemma unique_loop_spec:
  "set ex \<union> set seen = set ex \<union> set earlier \<Longrightarrow> unique_loop tx ex seen rows = spec_unique tx ex earlier rows"
proof (induction rows arbitrary: seen earlier)
  case Nil
  then show ?case by simp
next
  case (Cons r rows)
  show ?case
  proof (cases "row_url tx r = []")
    case True
    with Cons show ?thesis by simp
  next
    case False
    show ?thesis
    proof (cases "row_url tx r \<in> set ex \<or> row_url tx r \<in> set seen")
      case True
      with Cons.prems have "row_url tx r \<in> set ex \<or> row_url tx r \<in> set earlier" by blast
      moreover from True Cons.prems have "set ex \<union> set seen = set ex \<union> set (row_url tx r # earlier)" by auto
      ultimately show ?thesis using False True Cons.IH [of seen "row_url tx r # earlier"] by simp
    next
      case no: False
      with Cons.prems have "\<not> (row_url tx r \<in> set ex \<or> row_url tx r \<in> set earlier)" by blast
      moreover from Cons.prems have "set ex \<union> set (row_url tx r # seen) = set ex \<union> set (row_url tx r # earlier)" by auto
      ultimately show ?thesis using False no Cons.IH [of "row_url tx r # seen" "row_url tx r # earlier"] by simp
    qed
  qed
qed

lemma unique_loop_fresh_elem:
  "r \<in> set (unique_loop tx ex seen rows) \<Longrightarrow> row_url tx r \<noteq> [] \<Longrightarrow> row_url tx r \<notin> set ex \<and> row_url tx r \<notin> set seen"
proof (induction rows arbitrary: seen)
  case Nil
  then show ?case by simp
next
  case (Cons a rows)
  show ?case
  proof (cases "row_url tx a = []")
    case True
    with Cons.prems have "r \<in> set (unique_loop tx ex seen rows)" by auto
    with Cons show ?thesis by blast
  next
    case ne: False
    show ?thesis
    proof (cases "row_url tx a \<in> set ex \<or> row_url tx a \<in> set seen")
      case True
      with ne Cons.prems have "r \<in> set (unique_loop tx ex seen rows)" by auto
      with Cons show ?thesis by blast
    next
      case False
      with ne Cons.prems have "r = a \<or> r \<in> set (unique_loop tx ex (row_url tx a # seen) rows)" by auto
      then show ?thesis
      proof
        assume "r = a"
        with False show ?thesis by simp
      next
        assume "r \<in> set (unique_loop tx ex (row_url tx a # seen) rows)"
        from Cons.IH [OF this Cons.prems(2)] show ?thesis by simp
      qed
    qed
  qed
qed

lemma unique_loop_urls_fresh:
  "set (filter (\<lambda>u. u \<noteq> []) (map (row_url tx) (unique_loop tx ex seen rows))) \<inter> (set ex \<union> set seen) = {}"
  using unique_loop_fresh_elem [of _ tx ex seen rows] by auto

lemma unique_loop_distinct:
  "distinct (filter (\<lambda>u. u \<noteq> []) (map (row_url tx) (unique_loop tx ex seen rows)))"
proof (induction rows arbitrary: seen)
  case Nil
  then show ?case by simp
next
  case (Cons r rows)
  have "row_url tx r \<notin> set (filter (\<lambda>u. u \<noteq> []) (map (row_url tx) (unique_loop tx ex (row_url tx r # seen) rows)))"
  proof
    assume "row_url tx r \<in> set (filter (\<lambda>u. u \<noteq> []) (map (row_url tx) (unique_loop tx ex (row_url tx r # seen) rows)))"
    then obtain x where x: "x \<in> set (unique_loop tx ex (row_url tx r # seen) rows)" "row_url tx x \<noteq> []"
      "row_url tx x = row_url tx r" by auto
    from unique_loop_fresh_elem [OF x(1) x(2)] x(3) show False by simp
  qed
  with Cons show ?case by (auto simp: Let_def)
qed

lemma unique_loop_keeps_empty:
  "filter (\<lambda>r. row_url tx r = []) (unique_loop tx ex seen rows) = filter (\<lambda>r. row_url tx r = []) rows"
  by (induction rows arbitrary: seen) (auto simp: Let_def)

lemma row_url_prepare: "row_url tx (prepare_row r) = row_url tx r"
  by (simp add: row_url_def prepare_row_def default_key_def rename_key_def split: option.splits)

lemma row_url_ensureKeysForRow: "row_url tx (ensureKeysForRow columns r) = row_url tx r"
proof -
  have "row_url tx (fold (\<lambda>c r'. if r' (fst c) = None then r'(fst c \<mapsto> []) else r') columns r) = row_url tx r"
    by (induction columns arbitrary: r) (auto simp: row_url_def)
  then show ?thesis by (simp add: ensureKeysForRow_def)
qed

lemma saveProfilesCsv_rows_urls:
  "map_option (map (row_url tx)) (fst (snd (saveProfilesCsv (Some rows) opts fs))) = Some (map (row_url tx) rows)"
  by (cases rows)
    (simp_all add: saveProfilesCsv_def Let_def ensureKeysForColumns_def row_url_ensureKeysForRow o_def)

text \<open>
  The rows \<^verbatim>\<open>runSignalHire\<close> hands to the CSV writer, whatever the file holds and
  whatever \<^verbatim>\<open>upgradeCsvAddEmailOnly\<close> does to it: their URLs are those of the rows the
  filter kept.  The kept rows have pairwise distinct non-empty URLs, none of them among
  the URLs the code read from the output file; every row with an empty URL is kept; and a
  row is dropped exactly when its non-empty URL was read from the file or belongs to an
  earlier row of the batch.
\<close>

lemma runSignalHire_rows_unique:
  "map_option (map (row_url tx)) (snd (runSignalHire_save tx parse upgrade \<lparr>sh_filePath = Some p, sh_append = a\<rparr> rows fs))
     = Some (map (row_url tx) (uniqueRows tx parse fs (if p = [] then path_resolve fs ''output.csv'' else p) rows))
   \<and> distinct (filter (\<lambda>u. u \<noteq> []) (map (row_url tx) (uniqueRows tx parse fs p rows)))
   \<and> set (filter (\<lambda>u. u \<noteq> []) (map (row_url tx) (uniqueRows tx parse fs p rows)))
        \<inter> set (existingUrls tx parse fs p) = {}
   \<and> filter (\<lambda>r. row_url tx r = []) (uniqueRows tx parse fs p rows)
        = map prepare_row (filter (\<lambda>r. row_url tx r = []) rows)
   \<and> uniqueRows tx parse fs p rows = map prepare_row (spec_unique tx (existingUrls tx parse fs p) [] rows)"
proof -
  let ?ex = "existingUrls tx parse fs p"
  have m: "map (row_url tx) (uniqueRows tx parse fs p rows) = map (row_url tx) (unique_loop tx ?ex [] rows)"
    by (simp add: uniqueRows_def row_url_prepare)
  have h: "map_option (map (row_url tx)) (snd (runSignalHire_save tx parse upgrade \<lparr>sh_filePath = Some p, sh_append = a\<rparr> rows fs))
     = Some (map (row_url tx) (uniqueRows tx parse fs (if p = [] then path_resolve fs ''output.csv'' else p) rows))"
    by (simp add: runSignalHire_save_def Let_def saveProfilesCsv_rows_urls)
  have a: "distinct (filter (\<lambda>u. u \<noteq> []) (map (row_url tx) (uniqueRows tx parse fs p rows)))"
    unfolding m by (rule unique_loop_distinct)
  have b: "set (filter (\<lambda>u. u \<noteq> []) (map (row_url tx) (uniqueRows tx parse fs p rows))) \<inter> set ?ex = {}"
    unfolding m using unique_loop_urls_fresh [of tx ?ex "[]" rows] by simp
  have c: "filter (\<lambda>r. row_url tx r = []) (uniqueRows tx parse fs p rows)
             = map prepare_row (filter (\<lambda>r. row_url tx r = []) rows)"
    using unique_loop_keeps_empty [of tx ?ex "[]" rows]
    by (simp add: uniqueRows_def filter_map o_def row_url_prepare)
  have d: "uniqueRows tx parse fs p rows = map prepare_row (spec_unique tx ?ex [] rows)"
    by (simp add: uniqueRows_def unique_loop_spec [of ?ex "[]" "[]" tx rows])
  from h a b c d show ?thesis by blast
qed

text \<open>
  C10 at the output file as the CSV writer itself creates it, with the parser installed.
  The file begins with a byte-order mark followed by the quote of the first header
  field.  \<^verbatim>\<open>runSignalHire\<close> calls the parser without \<^verbatim>\<open>bom\<close>; the parser rejects the
  file, the exception is swallowed, and no URL is read from the file (with \<^verbatim>\<open>bom\<close>
  the URL of the row is read).  The same profile therefore passes the filter, is handed
  to the CSV writer, and the file ends up with the row twice.
  \<^verbatim>\<open>upgradeCsvAddEmailOnly\<close> is taken to leave the file, which has the Email column, as
  it is.
\<close>

theorem runSignalHire_repeats_row_of_written_file:
  "files written_fs ''/data/list.csv'' = Some (BOM @ header_text EXT_DOMAIN_EMAIL @ ann_line)
   \<and> parse_plain (BOM @ header_text EXT_DOMAIN_EMAIL @ ann_line) = None
   \<and> existingUrls ascii_only (Some parse_plain) written_fs ''/data/list.csv'' = []
   \<and> existingUrls ascii_only (Some (parse_with True False)) written_fs ''/data/list.csv'' = [''https://x/in/ann'']
   \<and> map_option (map (row_url ascii_only))
        (snd (runSignalHire_save ascii_only (Some parse_plain) (\<lambda>p fs. fs)
                \<lparr>sh_filePath = Some ''/data/list.csv'', sh_append = None\<rparr> [ann_row] written_fs))
       = Some [''https://x/in/ann'']
   \<and> files (fst (runSignalHire_save ascii_only (Some parse_plain) (\<lambda>p fs. fs)
                     \<lparr>sh_filePath = Some ''/data/list.csv'', sh_append = None\<rparr> [ann_row] written_fs))
         ''/data/list.csv''
       = Some (BOM @ header_text EXT_DOMAIN_EMAIL @ ann_line @ ann_line)"
  by code_simp

section \<open>Properties of the job store\<close>

lemma getJob_set_prop:
  "getJob (set_prop (jobsCache s) k v s) k = (if truthy v then v else JNull)"
  by (simp add: getJob_def set_prop_def obj_at_def get_prop_def)

lemma getJob_delete_prop: "getJob (delete_prop (jobsCache s) k s) k = JNull"
  by (simp add: getJob_def delete_prop_def obj_at_def get_prop_def truthy_def)

text \<open>
  C4, as the code has it: \<^verbatim>\<open>getJobs\<close> returns the cache object itself, not a copy.  A
  record put into the returned collection under a key is what \<^verbatim>\<open>getJob\<close> returns for
  that key afterwards; after an entry is deleted from the returned collection,
  \<^verbatim>\<open>getJob\<close> returns \<^verbatim>\<open>null\<close> for its key (the key not being an inherited property
  name); and \<^verbatim>\<open>getJobs\<close> called right after either change returns the same, changed,
  collection.
\<close>

theorem getJobs_is_the_cache:
  "getJobs s = jobsCache s
   \<and> getJob (set_prop (getJobs s) k (JRef job) s) k = JRef job
   \<and> (k \<notin> set inherited_keys \<longrightarrow> getJob (delete_prop (getJobs s) k s) k = JNull)
   \<and> getJobs (set_prop (getJobs s) k v s) = getJobs s
   \<and> getJobs (delete_prop (getJobs s) k s) = getJobs s"
  by (simp add: getJobs_def getJob_set_prop getJob_delete_prop truthy_def)
    (simp add: set_prop_def delete_prop_def)

theorem getJobs_is_the_cache_witness:
  "''A_t1'' \<notin> set inherited_keys
   \<and> getJob (set_prop (getJobs created) ''A_t1'' (JRef 7) created) ''A_t1'' = JRef 7
   \<and> getJob (delete_prop (getJobs created) ''A_t1'' created) ''A_t1'' = JNull
   \<and> getJobs (delete_prop (getJobs created) ''A_t1'' created) = getJobs created"
proof -
  have k: "''A_t1'' \<notin> set inherited_keys" by code_simp
  from getJobs_is_the_cache [of created "''A_t1''" 7 "JRef 7"] k show ?thesis by blast
qed

text \<open>
  The claim as stated fails: with job \<^verbatim>\<open>A_t1\<close> cached, deleting its entry from the
  collection \<^verbatim>\<open>getJobs\<close> returned, or adding an entry to it, changes what \<^verbatim>\<open>getJob\<close>
  returns.
\<close>

theorem getJobs_mutation_visible:
  "getJob created ''A_t1'' = JRef 2
   \<and> getJob (delete_prop (getJobs created) ''A_t1'' created) ''A_t1'' = JNull
   \<and> getJob created ''x'' = JNull
   \<and> getJob (set_prop (getJobs created) ''x'' (JRef 2) created) ''x'' = JRef 2"
  by code_simp

lemma updateJob_empty_id: "updateJob [] updates s = (Inr (), s)"
  by (simp add: updateJob_def)

lemma updateJob_cached:
  assumes "jobId \<noteq> []" and "get_prop (obj_at s (jobsCache s)) jobId = JRef r" and "r \<noteq> jobsCache s"
  shows "(let res = fst (updateJob jobId updates s); s' = snd (updateJob jobId updates s);
              merged = obj_at s r ++ updates; ident = get_prop merged ''id''
          in obj_at s' r = merged
             \<and> getJob s' jobId = JRef r
             \<and> res = (if \<not> truthy ident then Inl InvalidJob
                       else if \<not> writable s then Inl WriteFailed else Inr ())
             \<and> (if truthy ident \<and> writable s
                 then disk s' = (disk s)(to_key ident @ ''.json'' \<mapsto> json_of merged)
                      \<and> getJob s' (to_key ident) = JRef r
                 else disk s' = disk s \<and> obj_at s' (jobsCache s') = obj_at s (jobsCache s)))"
  using assms
  by (auto simp: updateJob_def saveJob_def assign_def set_prop_def obj_at_def getJob_def Let_def
        get_prop_def truthy_def split: option.splits)

lemma updateJob_not_cached:
  assumes "jobId \<noteq> []" and "\<not> truthy (get_prop (obj_at s (jobsCache s)) jobId)"
    and "jobsCache s \<noteq> next_ref s"
  shows "(let res = fst (updateJob jobId updates s); s' = snd (updateJob jobId updates s);
              ident = get_prop updates ''id''
          in res = (if \<not> truthy ident then Inl InvalidJob
                    else if \<not> writable s then Inl WriteFailed else Inr ())
             \<and> (if truthy ident \<and> writable s
                 then disk s' = (disk s)(to_key ident @ ''.json'' \<mapsto> json_of updates)
                      \<and> getJob s' (to_key ident) = JRef (next_ref s)
                      \<and> obj_at s' (next_ref s) = updates
                 else disk s' = disk s \<and> obj_at s' (jobsCache s') = obj_at s (jobsCache s)
                      \<and> getJob s' jobId = JNull))"
proof -
  from assms(2) obtain v where v: "get_prop (obj_at s (jobsCache s)) jobId = v" "\<not> truthy v" by blast
  then have nref: "\<And>j. v \<noteq> JRef j" by (auto simp: truthy_def)
  show ?thesis
    using assms(1,3) v nref
    by (cases v)
      (auto simp: updateJob_def saveJob_def assign_def set_prop_def obj_at_def getJob_def Let_def
        alloc_def get_prop_def truthy_def split: option.splits)
qed

text \<open>
  C5, as the code has it.  An empty job id makes the call return at once.  When a record
  is cached under the id, the partial fields are merged into that record in place, so
  the cache afterwards holds under that id a record with all the supplied fields; the
  merged record is written (to the file named by its own id field) and the call
  succeeds exactly when that id field is truthy and the write succeeds; otherwise the
  call rejects and nothing is written.  When no record is cached under the id, a new
  empty record takes the partial fields; it is written and cached, under its own id
  field, only if the partial fields supply a truthy id and the write succeeds;
  otherwise the call rejects and the cache and the directory are as before.
\<close>

theorem updateJob_behaviour:
  "updateJob [] updates s = (Inr (), s)
   \<and> (jobId \<noteq> [] \<and> get_prop (obj_at s (jobsCache s)) jobId = JRef r \<and> r \<noteq> jobsCache s \<longrightarrow>
        (let res = fst (updateJob jobId updates s); s' = snd (updateJob jobId updates s);
             merged = obj_at s r ++ updates; ident = get_prop merged ''id''
         in obj_at s' r = merged
            \<and> getJob s' jobId = JRef r
            \<and> res = (if \<not> truthy ident then Inl InvalidJob
                      else if \<not> writable s then Inl WriteFailed else Inr ())
            \<and> (if truthy ident \<and> writable s
                then disk s' = (disk s)(to_key ident @ ''.json'' \<mapsto> json_of merged)
                     \<and> getJob s' (to_key ident) = JRef r
                else disk s' = disk s \<and> obj_at s' (jobsCache s') = obj_at s (jobsCache s))))
   \<and> (jobId \<noteq> [] \<and> \<not> truthy (get_prop (obj_at s (jobsCache s)) jobId) \<and> jobsCache s \<noteq> next_ref s \<longrightarrow>
        (let res = fst (updateJob jobId updates s); s' = snd (updateJob jobId updates s);
             ident = get_prop updates ''id''
         in res = (if \<not> truthy ident then Inl InvalidJob
                   else if \<not> writable s then Inl WriteFailed else Inr ())
            \<and> (if truthy ident \<and> writable s
                then disk s' = (disk s)(to_key ident @ ''.json'' \<mapsto> json_of updates)
                     \<and> getJob s' (to_key ident) = JRef (next_ref s)
                     \<and> obj_at s' (next_ref s) = updates
                else disk s' = disk s \<and> obj_at s' (jobsCache s') = obj_at s (jobsCache s)
                     \<and> getJob s' jobId = JNull)))"
  using updateJob_empty_id [of updates s] updateJob_cached [of jobId s r updates]
    updateJob_not_cached [of jobId s updates]
  by blast

lemma created_cache:
  "get_prop (obj_at created (jobsCache created)) ''A_t1'' = JRef 2 \<and> jobsCache created = 1
   \<and> get_prop (obj_at created 2) ''id'' = JStr ''A_t1'' \<and> writable created"
  by code_simp

theorem updateJob_behaviour_witness:
  "get_prop (obj_at (snd (updateJob ''A_t1'' [''state'' \<mapsto> JStr ''pausing''] created)) 2) ''state''
     = JStr ''pausing''
   \<and> getJob (snd (updateJob ''A_t1'' [''state'' \<mapsto> JStr ''pausing''] created)) ''A_t1'' = JRef 2
   \<and> fst (updateJob ''A_t1'' [''state'' \<mapsto> JStr ''pausing''] created) = Inr ()"
proof -
  have pre: "''A_t1'' \<noteq> [] \<and> get_prop (obj_at created (jobsCache created)) ''A_t1'' = JRef 2
             \<and> 2 \<noteq> jobsCache created"
    by code_simp
  have ident: "get_prop (obj_at created 2 ++ [''state'' \<mapsto> JStr ''pausing'']) ''id'' = JStr ''A_t1''"
    using created_cache by (simp add: get_prop_def map_add_def)
  from updateJob_behaviour [of "[''state'' \<mapsto> JStr ''pausing'']" created "''A_t1''" 2] pre
  have "(let res = fst (updateJob ''A_t1'' [''state'' \<mapsto> JStr ''pausing''] created);
             s' = snd (updateJob ''A_t1'' [''state'' \<mapsto> JStr ''pausing''] created);
             merged = obj_at created 2 ++ [''state'' \<mapsto> JStr ''pausing'']; ident = get_prop merged ''id''
         in obj_at s' 2 = merged
            \<and> getJob s' ''A_t1'' = JRef 2
            \<and> res = (if \<not> truthy ident then Inl InvalidJob
                      else if \<not> writable created then Inl WriteFailed else Inr ())
            \<and> (if truthy ident \<and> writable created
                then disk s' = (disk created)(to_key ident @ ''.json'' \<mapsto> json_of merged)
                     \<and> getJob s' (to_key ident) = JRef 2
                else disk s' = disk created \<and> obj_at s' (jobsCache s') = obj_at created (jobsCache created)))"
    by blast
  then show ?thesis
    using created_cache by (simp add: Let_def ident truthy_def get_prop_def)
qed

text \<open>
  The claim as stated fails: no record is cached under \<^verbatim>\<open>job1\<close> and the partial
  fields carry no id, so saving the new record is rejected and the cache still has no
  record under that id.
\<close>

theorem updateJob_rejects_without_id:
  "fst (updateJob ''job1'' [''state'' \<mapsto> JStr ''paused''] boot) = Inl InvalidJob
   \<and> getJob (snd (updateJob ''job1'' [''state'' \<mapsto> JStr ''paused''] boot)) ''job1'' = JNull"
  by code_simp

section \<open>Properties of the job runner\<close>

lemma jobsCache_updateJob: "jobsCache (snd (updateJob k u w)) = jobsCache w"
  by (simp add: updateJob_def saveJob_def assign_def set_prop_def alloc_def Let_def
        split: jsval.splits)

lemma state_after_updateJob:
  assumes "u ''state'' = Some v" and "get_prop (obj_at w r) ''state'' = v" and "r \<noteq> jobsCache w"
  shows "get_prop (obj_at (snd (updateJob k u w)) r) ''state'' = v"
  using assms
  by (auto simp: updateJob_def saveJob_def assign_def set_prop_def alloc_def Let_def obj_at_def
        get_prop_def map_add_def split: jsval.splits option.splits)

lemma state_after_update_swallow:
  assumes "u ''state'' = Some v" and "get_prop (obj_at w r) ''state'' = v" and "r \<noteq> jobsCache w"
  shows "get_prop (obj_at (update_swallow jobId u w) r) ''state'' = v"
  using assms state_after_updateJob [of u v w r]
  by (simp add: update_swallow_def split: option.splits)

lemma complete_state:
  assumes "r_job rn \<noteq> jobsCache w"
  shows "get_prop (obj_at (complete i rn w) (r_job rn)) ''state'' = JStr ''completed''"
proof -
  let ?w1 = "set_flags False False (set_prop (r_job rn) ''state'' (JStr ''completed'') w)"
  have a: "get_prop (obj_at ?w1 (r_job rn)) ''state'' = JStr ''completed''"
    by (simp add: set_flags_def set_prop_def obj_at_def get_prop_def)
  have b: "r_job rn \<noteq> jobsCache ?w1" using assms by (simp add: set_flags_def set_prop_def)
  have "get_prop (obj_at (update_swallow (r_jobId rn)
          ((progress (obj_at ?w1 (r_job rn)))(''state'' \<mapsto> JStr ''completed'')) ?w1) (r_job rn)) ''state''
        = JStr ''completed''"
    using a b by (intro state_after_update_swallow) simp_all
  then show ?thesis
    by (simp add: complete_def Let_def set_runner_def obj_at_def)
qed

lemma runners_update_swallow: "runners (update_swallow j u x) = runners x"
  by (simp add: update_swallow_def updateJob_def saveJob_def assign_def set_prop_def alloc_def Let_def
        split: option.splits jsval.splits)

lemma jobsCache_update_swallow: "jobsCache (update_swallow j u x) = jobsCache x"
  by (simp add: update_swallow_def jobsCache_updateJob split: option.splits)

lemma pause_exit_state:
  assumes "r_job rn \<noteq> jobsCache w"
  shows "get_prop (obj_at (pause_exit i rn w) (r_job rn)) ''state'' = JStr ''paused''"
proof -
  define w2 where "w2 = (let w1 = set_prop (r_job rn) ''state'' (JStr ''paused'')
                 (set_prop (r_job rn) ''pageIndex'' (r_currentPage rn) w);
          ss = scrapeSession w1 in w1\<lparr>scrapeSession := ss\<lparr>isScraping := False, isPaused := pauseRequested ss,
                                       pauseRequested := False\<rparr>\<rparr>)"
  have a: "get_prop (obj_at w2 (r_job rn)) ''state'' = JStr ''paused''"
    by (simp add: w2_def Let_def set_prop_def obj_at_def get_prop_def)
  have b: "r_job rn \<noteq> jobsCache w2" using assms by (simp add: w2_def Let_def set_prop_def)
  have "get_prop (obj_at (update_swallow (r_jobId rn)
          ((progress (obj_at w2 (r_job rn)))(''state'' \<mapsto> JStr ''paused'')) w2) (r_job rn)) ''state''
        = JStr ''paused''"
    using a b by (intro state_after_update_swallow) simp_all
  then show ?thesis
    by (simp add: pause_exit_def Let_def set_runner_def obj_at_def w2_def)
qed

lemma pause_job_state:
  assumes "r_job rn \<noteq> jobsCache w" and "extra ''state'' = None"
  shows "get_prop (obj_at (pause_job i rn paused closing extra w) (r_job rn)) ''state'' = JStr ''paused''"
proof -
  let ?w1 = "assign (r_job rn) ([''state'' \<mapsto> JStr ''paused''] ++ extra) (set_flags False paused w)"
  have a: "get_prop (obj_at ?w1 (r_job rn)) ''state'' = JStr ''paused''"
    using assms(2) by (simp add: assign_def set_flags_def obj_at_def get_prop_def map_add_def)
  have b: "r_job rn \<noteq> jobsCache ?w1" using assms by (simp add: set_flags_def assign_def)
  have "get_prop (obj_at (update_swallow (r_jobId rn)
          (progress (obj_at ?w1 (r_job rn)) ++ [''state'' \<mapsto> JStr ''paused''] ++ extra) ?w1) (r_job rn)) ''state''
        = JStr ''paused''"
    using a b assms(2) by (intro state_after_update_swallow) (simp_all add: map_add_def)
  then show ?thesis
    by (simp add: pause_job_def Let_def set_runner_def obj_at_def)
qed

lemma rejected_state:
  assumes "r_job rn \<noteq> jobsCache w"
  shows "get_prop (obj_at (rejected i rn w) (r_job rn)) ''state'' = JStr ''paused''"
proof -
  let ?w1 = "set_prop (r_job rn) ''state'' (JStr ''paused'') (set_flags False False w)"
  have a: "get_prop (obj_at ?w1 (r_job rn)) ''state'' = JStr ''paused''"
    by (simp add: set_flags_def set_prop_def obj_at_def get_prop_def)
  have b: "r_job rn \<noteq> jobsCache ?w1" using assms by (simp add: set_flags_def set_prop_def)
  have "get_prop (obj_at (update_swallow (r_jobId rn) [''state'' \<mapsto> JStr ''paused''] ?w1) (r_job rn)) ''state''
        = JStr ''paused''"
    using a b by (intro state_after_update_swallow) simp_all
  then show ?thesis
    using a by (simp add: rejected_def Let_def set_runner_def obj_at_def)
qed


lemma loop_head_state:
  assumes "r_job rn \<noteq> jobsCache w" and "i < length (runners w)"
    and "r_pc (runners (loop_head i rn w) ! i) = Finished"
  shows "get_prop (obj_at (loop_head i rn w) (r_job rn)) ''state'' = JStr ''paused''"
  using assms pause_exit_state [of rn w i]
  by (simp add: loop_head_def set_runner_def split: if_splits)

lemma after_extraction_state:
  assumes "r_job rn \<noteq> jobsCache w" and "i < length (runners w)"
    and "r_pc (runners (after_extraction i rn w) ! i) = Finished"
  shows "get_prop (obj_at (after_extraction i rn w) (r_job rn)) ''state'' = JStr ''paused''"
  using assms pause_exit_state [of rn w i]
  by (simp add: after_extraction_def set_runner_def split: if_splits)

lemma after_scroll_state:
  assumes "r_job rn \<noteq> jobsCache w" and "i < length (runners w)"
    and "r_pc (runners (after_scroll i rn w) ! i) = Finished"
  shows "get_prop (obj_at (after_scroll i rn w) (r_job rn)) ''state'' = JStr ''paused''"
  using assms pause_exit_state [of rn w i]
  by (simp add: after_scroll_def set_runner_def split: if_splits)

lemma after_signalhire_state:
  assumes "r_job rn \<noteq> jobsCache w" and "i < length (runners w)"
    and "r_pc (runners (after_signalhire res i rn w) ! i) = Finished"
  shows "get_prop (obj_at (after_signalhire res i rn w) (r_job rn)) ''state'' = JStr ''paused''"
proof -
  define w1 where "w1 = (case res of None \<Rightarrow> w
                | Some k \<Rightarrow> set_prop (r_job rn) ''totalRows''
                             (plus_count (get_prop (obj_at w (r_job rn)) ''totalRows'') k) w)"
  define rn1 where "rn1 = rn\<lparr>r_shRows := (case res of None \<Rightarrow> 0 | Some k \<Rightarrow> k)\<rparr>"
  have c: "r_job rn1 \<noteq> jobsCache w1" "i < length (runners w1)" "r_job rn1 = r_job rn"
    using assms(1,2) by (simp_all add: w1_def rn1_def set_prop_def split: option.splits)
  have e: "after_signalhire res i rn w =
      (if stop_requested w1 rn1 then pause_exit i rn1 w1
       else if (case res of None \<Rightarrow> 0 | Some k \<Rightarrow> k) > 0 then set_runner i (rn1\<lparr>r_pc := AwaitContactOut\<rparr>) w1
       else after_extraction i rn1 w1)"
    by (simp add: after_signalhire_def Let_def w1_def rn1_def)
  show ?thesis
    using assms(3) c pause_exit_state [of rn1 w1 i] after_extraction_state [of rn1 w1 i]
    unfolding e by (simp add: set_runner_def split: if_splits)
qed

lemma after_contactout_state:
  assumes "r_job rn \<noteq> jobsCache w" and "i < length (runners w)"
    and "r_pc (runners (after_contactout res i rn w) ! i) = Finished"
  shows "get_prop (obj_at (after_contactout res i rn w) (r_job rn)) ''state'' = JStr ''paused''"
proof -
  define w1 where "w1 = (case res of None \<Rightarrow> w
                | Some k \<Rightarrow> set_prop (r_job rn) ''totalContacts''
                             (plus_count (get_prop (obj_at w (r_job rn)) ''totalContacts'') k) w)"
  have c: "r_job rn \<noteq> jobsCache w1" "i < length (runners w1)"
    using assms(1,2) by (simp_all add: w1_def set_prop_def split: option.splits)
  have e: "after_contactout res i rn w = after_extraction i rn w1"
    by (simp add: after_contactout_def Let_def w1_def)
  show ?thesis using assms(3) c after_extraction_state [of rn w1 i] unfolding e by simp
qed

lemma after_linkedin_state:
  assumes "r_job rn \<noteq> jobsCache w" and "i < length (runners w)"
    and "r_pc (runners (after_linkedin loggedIn i rn w) ! i) = Finished"
  shows "get_prop (obj_at (after_linkedin loggedIn i rn w) (r_job rn)) ''state'' = JStr ''paused''"
proof (cases loggedIn)
  case False
  then show ?thesis using assms(1) by (simp add: after_linkedin_def pause_job_state)
next
  case True
  define w2 where "w2 = set_flags True False (if get_prop (obj_at w (r_job rn)) ''pageIndex'' = JNum 1
                      then set_prop (r_job rn) ''totalContacts'' (JNum 0)
                             (set_prop (r_job rn) ''totalRows'' (JNum 0) w)
                      else w)"
  define rn1 where "rn1 = rn\<lparr>r_currentPage := get_prop (obj_at w2 (r_job rn)) ''pageIndex''\<rparr>"
  have c: "r_job rn1 \<noteq> jobsCache w2" "i < length (runners w2)" "r_job rn1 = r_job rn"
    using assms(1,2) by (simp_all add: w2_def rn1_def set_prop_def set_flags_def)
  have e: "after_linkedin loggedIn i rn w = loop_head i rn1 w2"
    using True by (simp add: after_linkedin_def Let_def w2_def rn1_def)
  show ?thesis using assms(3) c loop_head_state [of rn1 w2 i] unfolding e by simp
qed

lemma after_logins_state:
  assumes "r_job rn \<noteq> jobsCache w" and "i < length (runners w)"
    and "r_pc (runners (after_logins co sh i rn w) ! i) = Finished"
  shows "get_prop (obj_at (after_logins co sh i rn w) (r_job rn)) ''state'' = JStr ''paused''"
proof (cases "co \<and> sh")
  case True
  with assms(2,3) show ?thesis by (simp add: after_logins_def Let_def set_runner_def)
next
  case False
  with assms(1) pause_job_state [of "rn\<lparr>r_context := ContextOpen\<rparr>" w Map.empty i False False]
  show ?thesis by (auto simp: after_logins_def Let_def)
qed

lemma after_next_page_state:
  assumes "r_job rn \<noteq> jobsCache w" and "i < length (runners w)"
    and "r_pc (runners (after_next_page navStatus url i rn w) ! i) = Finished"
  shows "get_prop (obj_at (after_next_page navStatus url i rn w) (r_job rn)) ''state''
         = (if navStatus = NoMore then JStr ''completed'' else JStr ''paused'')"
proof -
  define rn1 where "rn1 = (if navStatus = Moved then rn\<lparr>r_currentPage := plus_count (r_currentPage rn) 1\<rparr> else rn)"
  define w2 where "w2 = (case url of None \<Rightarrow> set_prop (r_job rn) ''pageIndex'' (r_currentPage rn1) w
     | Some u \<Rightarrow> set_prop (r_job rn) ''currentUrl'' (JStr u) (set_prop (r_job rn) ''pageIndex'' (r_currentPage rn1) w))"
  define w3 where "w3 = update_swallow (r_jobId rn)
     ((progress (obj_at w2 (r_job rn)))(''state'' \<mapsto> get_prop (obj_at w2 (r_job rn)) ''state'')) w2"
  define w4 where "w4 = w3\<lparr>scrapeSession := (scrapeSession w3)\<lparr>pauseRequested := False\<rparr>\<rparr>"
  have c2: "jobsCache w2 = jobsCache w" "runners w2 = runners w"
    by (simp_all add: w2_def set_prop_def split: option.splits)
  have c: "r_job rn1 \<noteq> jobsCache w3" "i < length (runners w3)" "r_job rn1 = r_job rn"
     "r_job rn1 \<noteq> jobsCache w4"
    using assms(1,2) c2 by (simp_all add: w3_def w4_def rn1_def jobsCache_update_swallow runners_update_swallow)
  have e: "after_next_page navStatus url i rn w =
      (if navStatus = NavFailed then pause_job i rn1 True True Map.empty w4
       else if navStatus = Moved then loop_head i rn1 w3 else complete i rn1 w3)"
    by (simp add: after_next_page_def Let_def rn1_def w2_def w3_def w4_def split: option.splits)
  show ?thesis
    using assms(3) c pause_job_state [of rn1 w4 Map.empty i True True] loop_head_state [of rn1 w3 i]
      complete_state [of rn1 w3 i]
    unfolding e by (cases navStatus) simp_all
qed

text \<open>
  Whatever the state of the process: when no call of \<^verbatim>\<open>context.close()\<close> throws and
  \<^verbatim>\<open>clickNextPage\<close> returns one of its three statuses, a step that ends the run
  leaves the job completed if it is the return of \<^verbatim>\<open>no-more\<close>, and paused otherwise.
\<close>

lemma final_state_when_close_succeeds:
  assumes "i < length (runners w)" and "r_job (runners w ! i) \<noteq> jobsCache w"
    and "r_pc (runners (advance i a w) ! i) = Finished" and "r_pc (runners w ! i) \<noteq> Finished"
    and "\<forall>b again. a \<noteq> CloseThrew b again"
    and "r_pc (runners w ! i) = AwaitNextPage \<longrightarrow> a \<noteq> Threw"
  shows "get_prop (obj_at (advance i a w) (r_job (runners w ! i))) ''state''
         = (if \<exists>url. a = Nav NoMore url then JStr ''completed'' else JStr ''paused'')"
proof -
  define rn where "rn = runners w ! i"
  define p where "p = r_pc rn"
  have adv: "advance i a w = resume_at p a i rn w"
    using assms(1,5) by (cases a) (auto simp: advance_def rn_def p_def)
  have fin: "r_pc (runners (resume_at p a i rn w) ! i) = Finished" using assms(3) adv by simp
  have j: "r_job rn \<noteq> jobsCache w" using assms(2) by (simp add: rn_def)
  have same: "r_pc (runners w ! i) = p" by (simp add: p_def rn_def)
  have "get_prop (obj_at (resume_at p a i rn w) (r_job rn)) ''state''
         = (if \<exists>url. a = Nav NoMore url then JStr ''completed'' else JStr ''paused'')"
  proof (cases p)
    case AwaitBrowser
    then show ?thesis
      using fin j assms(1,4) same rejected_state [of rn w i] after_logins_state [of rn w i]
      by (cases a) simp_all
  next
    case AwaitLinkedIn
    then show ?thesis
      using fin j assms(1,4) same pause_job_state [of rn w Map.empty i False True] after_linkedin_state [of rn w i]
      by (cases a) simp_all
  next
    case AwaitSignalHire
    then show ?thesis
      using fin j assms(1,4) same after_signalhire_state [of rn w i]
      by (cases a) simp_all
  next
    case AwaitContactOut
    then show ?thesis
      using fin j assms(1,4) same after_contactout_state [of rn w i]
      by (cases a) simp_all
  next
    case AwaitScroll
    then show ?thesis
      using fin j assms(1,4) same after_scroll_state [of rn w i]
      by (cases a) simp_all
  next
    case AwaitNextPage
    then show ?thesis
      using fin j assms(1,4,6) same after_next_page_state [of rn w i]
      by (cases a) auto
  next
    case Finished
    then show ?thesis using assms(4) same by simp
  qed
  then show ?thesis by (simp add: adv rn_def)
qed


text \<open>
  Whatever the state of the process: when \<^verbatim>\<open>clickNextPage\<close> returns \<^verbatim>\<open>failed\<close>,
  the call of \<^verbatim>\<open>context.close()\<close> of that exit throws and the call after the loop
  succeeds, the runner marks its job completed.
\<close>

lemma failed_navigation_close_threw_completes:
  assumes "i < length (runners w)" and "r_pc (runners w ! i) = AwaitNextPage"
    and "r_job (runners w ! i) \<noteq> jobsCache w"
  shows "get_prop (obj_at (advance i (CloseThrew (Nav NavFailed url) False) w) (r_job (runners w ! i))) ''state''
         = JStr ''completed''"
proof -
  define rn where "rn = runners w ! i"
  define w2 where "w2 = (case url of None \<Rightarrow> set_prop (r_job rn) ''pageIndex'' (r_currentPage rn) w
     | Some u \<Rightarrow> set_prop (r_job rn) ''currentUrl'' (JStr u) (set_prop (r_job rn) ''pageIndex'' (r_currentPage rn) w))"
  define w3 where "w3 = update_swallow (r_jobId rn)
     ((progress (obj_at w2 (r_job rn)))(''state'' \<mapsto> get_prop (obj_at w2 (r_job rn)) ''state'')) w2"
  define w5 where "w5 = set_prop (r_job rn) ''state'' (JStr ''paused'')
     (set_flags False True (w3\<lparr>scrapeSession := (scrapeSession w3)\<lparr>pauseRequested := False\<rparr>\<rparr>))"
  have c2: "jobsCache w2 = jobsCache w"
    by (simp add: w2_def set_prop_def split: option.splits)
  have c: "r_job rn \<noteq> jobsCache w5"
    using assms(3) c2 by (simp add: w3_def w5_def rn_def jobsCache_update_swallow set_prop_def set_flags_def)
  have e: "advance i (CloseThrew (Nav NavFailed url) False) w = complete i rn w5"
    using assms(1,2)
    by (simp add: advance_def next_page_close_threw_def loop_catch_def Let_def rn_def w2_def w3_def w5_def
          split: option.splits)
  show ?thesis using c complete_state [of rn w5 i] by (simp add: e rn_def)
qed

text \<open>
  Whatever the state of the process: when the wait for the next page ends with a thrown
  error, the runner marks its job completed.
\<close>

lemma thrown_error_completes:
  assumes "i < length (runners w)" and "r_pc (runners w ! i) = AwaitNextPage"
    and "r_job (runners w ! i) \<noteq> jobsCache w"
  shows "get_prop (obj_at (advance i Threw w) (r_job (runners w ! i))) ''state'' = JStr ''completed''"
  using assms complete_state [of "runners w ! i" w i] by (simp add: advance_def)

text \<open>
  Whatever the state of the process: when a third-party login fails, the runner ends with
  its browser context open and the reason and message of its job as they were.
\<close>

lemma login_failure_leaves_context_open:
  assumes "i < length (runners w)" and "r_pc (runners w ! i) = AwaitBrowser" and "\<not> (co \<and> sh)"
  shows "runners (advance i (Logins co sh) w) ! i
         = (runners w ! i)\<lparr>r_pc := Finished, r_context := ContextOpen\<rparr>"
proof -
  have r: "runners (update_swallow j u x) = runners x" for j u x
    by (simp add: update_swallow_def updateJob_def saveJob_def assign_def set_prop_def alloc_def Let_def
          split: option.splits jsval.splits)
  show ?thesis
    using assms
    by (simp add: advance_def after_logins_def pause_job_def Let_def set_runner_def r assign_def
          set_flags_def)
qed

text \<open>
  Whatever the state of the process: a runner that comes back from the extraction and is
  no longer current clears \<^verbatim>\<open>isScraping\<close>, and with that flag cleared the create and
  run handlers pause nothing.
\<close>

lemma session_update_swallow: "scrapeSession (update_swallow j u x) = scrapeSession x"
  by (simp add: update_swallow_def updateJob_def saveJob_def assign_def set_prop_def alloc_def Let_def
        split: option.splits jsval.splits)

lemma preempted_runner_clears_isScraping:
  assumes "i < length (runners w)" and "r_pc (runners w ! i) = AwaitSignalHire"
    and "currentJobId (scrapeSession w) \<noteq> r_jobId (runners w ! i)"
  shows "\<not> isScraping (scrapeSession (advance i (Rows res) w))"
  using assms
  by (simp add: advance_def after_signalhire_def Let_def stop_requested_def pause_exit_def
        set_runner_def session_update_swallow set_prop_def split: option.splits)

lemma pause_current_skipped: "\<not> isScraping (scrapeSession w) \<Longrightarrow> pause_current w = w"
  by (simp add: pause_current_def split: option.splits jsval.splits)

text \<open>
  C1 at a run in which the navigation fails and closing the browser context throws:
  \<^verbatim>\<open>clickNextPage\<close> returns \<^verbatim>\<open>failed\<close>, the job is marked paused, the call of
  \<^verbatim>\<open>context.close()\<close> of that exit throws, the handler inside the loop ends the loop,
  and the code after the loop, whose call of \<^verbatim>\<open>context.close()\<close> succeeds, marks the
  job completed and persists that state.  No invocation of \<^verbatim>\<open>clickNextPage\<close> has
  returned \<^verbatim>\<open>no-more\<close>.  The same happens to a job that is preempted by the creation
  of another job.  With \<^verbatim>\<open>context.close()\<close> succeeding, or throwing after the loop
  as well, the job is paused.
\<close>

theorem runScrape_completed_after_failed_navigation:
  "r_pc (runners (exec first_page boot) ! 0) = AwaitNextPage
   \<and> state_of (exec (first_page @ [Advance 0 (Nav NavFailed None)]) boot) ''A_t1'' = JStr ''paused''
   \<and> state_of (exec (first_page @ [Advance 0 (CloseThrew (Nav NavFailed None) False)]) boot) ''A_t1''
       = JStr ''completed''
   \<and> map_option (\<lambda>ob. get_prop ob ''state'')
        (disk (exec (first_page @ [Advance 0 (CloseThrew (Nav NavFailed None) False)]) boot) ''A_t1.json'')
       = Some (JStr ''completed'')
   \<and> r_pc (runners (exec (first_page @ [Advance 0 (CloseThrew (Nav NavFailed None) False)]) boot) ! 0)
       = Finished
   \<and> state_of (exec (first_page @ [Advance 0 (CloseThrew (Nav NavFailed None) True)]) boot) ''A_t1''
       = JStr ''paused''
   \<and> state_of (exec (preempted @ [Advance 0 (Rows (Some 0))]) boot) ''A_t1'' = JStr ''paused''
   \<and> state_of (exec (preempted @ [Advance 0 (CloseThrew (Rows (Some 0)) False)]) boot) ''A_t1''
       = JStr ''completed''"
  by code_simp

text \<open>
  C2 at a sequence of three create requests: job A is running when B is created, so A is
  paused and B becomes current; A's runner then reaches its next pause check, sees that
  it is no longer current and clears \<^verbatim>\<open>isScraping\<close>; the third request therefore
  does not pause B, and B and C are both running.
\<close>

theorem two_jobs_running:
  "state_of (exec preemption boot) ''B_t2'' = JStr ''running''
   \<and> state_of (exec preemption boot) ''C_t3'' = JStr ''running''
   \<and> state_of (exec (take 4 preemption) boot) ''A_t1'' = JStr ''paused''
   \<and> isScraping (scrapeSession (exec (take 5 preemption) boot)) = False
   \<and> state_of (exec (take 5 preemption) boot) ''B_t2'' = JStr ''running''"
  by code_simp

text \<open>
  C3 at a third-party login failure: the job is paused, but no \<^verbatim>\<open>stateReason\<close> and no
  \<^verbatim>\<open>message\<close> are set on it and the browser context stays open.  The expired-cookie
  path sets both fields and closes the context.
\<close>

theorem login_failure_no_reason_no_release:
  "field_of (exec [PostScrape sales_url ''A'' ''t1'', Advance 0 (Logins False True)] boot) ''A_t1'' ''state''
     = JStr ''paused''
   \<and> field_of (exec [PostScrape sales_url ''A'' ''t1'', Advance 0 (Logins False True)] boot) ''A_t1'' ''stateReason''
     = JUndefined
   \<and> field_of (exec [PostScrape sales_url ''A'' ''t1'', Advance 0 (Logins False True)] boot) ''A_t1'' ''message''
     = JUndefined
   \<and> map r_context (runners (exec [PostScrape sales_url ''A'' ''t1'', Advance 0 (Logins False True)] boot))
     = [ContextOpen]
   \<and> map r_pc (runners (exec [PostScrape sales_url ''A'' ''t1'', Advance 0 (Logins False True)] boot))
     = [Finished]
   \<and> field_of (exec [PostScrape sales_url ''A'' ''t1'', Advance 0 (Logins True True), Advance 0 (LinkedIn False)] boot)
       ''A_t1'' ''stateReason'' = JStr ''cookie_expired''
   \<and> map r_context (runners (exec [PostScrape sales_url ''A'' ''t1'', Advance 0 (Logins True True),
                                   Advance 0 (LinkedIn False)] boot)) = [ContextClosed]"
  by code_simp

text \<open>
  The missing-cookie path: the job is run again after the cookie file has been removed;
  it is paused without a reason or a message, and no browser is launched.
\<close>

lemma missing_cookie_no_reason:
  "field_of (post_run ''A_t1''
      ((exec [PostScrape sales_url ''A'' ''t1'', Advance 0 (Logins False True)] boot)\<lparr>cookieFile := False\<rparr>))
     ''A_t1'' ''state'' = JStr ''paused''
   \<and> field_of (post_run ''A_t1''
      ((exec [PostScrape sales_url ''A'' ''t1'', Advance 0 (Logins False True)] boot)\<lparr>cookieFile := False\<rparr>))
     ''A_t1'' ''stateReason'' = JUndefined
   \<and> length (runners (post_run ''A_t1''
      ((exec [PostScrape sales_url ''A'' ''t1'', Advance 0 (Logins False True)] boot)\<lparr>cookieFile := False\<rparr>))) = 1"
  by code_simp

end
